theory Spec2Isabelle
  imports Main "HOL-Library.Word"
begin

section \<open>Values exchanged with the engine\<close>

text \<open>
  The engine under verification is \<^verbatim>\<open>DescribeOnlySource\<close> of package \<^verbatim>\<open>sources\<close>
  (src/unnamed/part_001, lines 1-411).  Its query errors are values of the protocol type
  \<^verbatim>\<open>sdp.QueryError\<close>; the engine sets the three fields below and leaves the others at
  their zero value.
\<close>

datatype QueryError_ErrorType = OTHER | NOTFOUND | NOSCOPE | TIMEOUT

record QueryError =
  ErrorType :: QueryError_ErrorType
  ErrorString :: string
  Scope :: string

text \<open>
  A Go \<^verbatim>\<open>error\<close> value: a query error, an \<^verbatim>\<open>errors.New\<close> text, one of the two errors of a
  finished context, or any other error a callback hands back.
\<close>

datatype go_error =
    QueryErr QueryError
  | ErrorsNew string
  | ContextCanceled
  | ContextDeadlineExceeded
  | UpstreamErr string

text \<open>
  A \<^verbatim>\<open>context.Context\<close> is only ever passed on by the engine; what matters of it is
  \<^verbatim>\<open>ctx.Err()\<close>: nil while the context is live, the cancellation error afterwards.
\<close>

datatype go_context = Context (ctxErr: "go_error option")

text \<open>
  What a call of the engine does: it returns a value, returns an error, or panics (a call
  through a nil function value).
\<close>

datatype 'a result = Return 'a | Error go_error | Panic string

datatype QueryMethod = GET | LIST | SEARCH

text \<open>
  Modelled from the spec: \<^verbatim>\<open>sdpcache.CacheKey\<close> and \<^verbatim>\<open>sdpcache.CacheKeyFromParts\<close> belong to
  the cache library, which is not among the sources.  The spec keys a cache entry by
  (source name, method, scope, item type, query string).
\<close>

datatype CacheKey =
  CacheKey (ckSourceName: string) (ckMethod: QueryMethod) (ckScope: string)
    (ckType: string) (ckQuery: string)

definition CacheKeyFromParts ::
  "string \<Rightarrow> QueryMethod \<Rightarrow> string \<Rightarrow> string \<Rightarrow> string \<Rightarrow> CacheKey" where
  "CacheKeyFromParts srcName method scope typ query = CacheKey srcName method scope typ query"

text \<open>The fields of a parsed ARN that the engine reads, and the resource string.\<close>

record ARN =
  arnAccountID :: string
  arnRegion :: string
  arnResource :: string

text \<open>\<^verbatim>\<open>time.Duration\<close> is an int64 count of nanoseconds.\<close>

type_synonym Duration = "64 word"

definition DefaultCacheDuration :: Duration where
  "DefaultCacheDuration = 1 * 3600000000000"

section \<open>The calls the engine makes\<close>

text \<open>
  Every call that leaves the engine (to the cache or to a callback of the source) is
  appended to a log kept beside the source.  The log is not part of the Go program: it is
  how the model states that a call was, or was not, made.
\<close>

datatype ('i, 'it) call =
    CacheLookup string QueryMethod string string string bool
  | CacheStoreItem 'it Duration CacheKey
  | CacheStoreError go_error Duration CacheKey
  | CallInputMapperGet string string
  | CallInputMapperList string
  | CallInputMapperSearch string string
  | CallDescribeFunc 'i
  | CallOutputMapper
  | CallPaginatorBuilder 'i
  | CallHasMorePages
  | CallNextPage

fun isCacheCall :: "('i, 'it) call \<Rightarrow> bool" where
  "isCacheCall (CacheLookup _ _ _ _ _ _) = True"
| "isCacheCall (CacheStoreItem _ _ _) = True"
| "isCacheCall (CacheStoreError _ _ _) = True"
| "isCacheCall _ = False"

fun isCacheWrite :: "('i, 'it) call \<Rightarrow> bool" where
  "isCacheWrite (CacheStoreItem _ _ _) = True"
| "isCacheWrite (CacheStoreError _ _ _) = True"
| "isCacheWrite _ = False"

fun isCacheLookup :: "('i, 'it) call \<Rightarrow> bool" where
  "isCacheLookup (CacheLookup _ _ _ _ _ _) = True"
| "isCacheLookup _ = False"

section \<open>Collaborators of the engine\<close>

text \<open>
  A paginator is an object with the two methods of the \<^verbatim>\<open>Paginator\<close> interface and a
  private state that \<^verbatim>\<open>NextPage\<close> advances.
\<close>

record ('p, 'o) Paginator =
  pstate :: 'p
  HasMorePages :: "'p \<Rightarrow> bool"
  NextPage :: "go_context \<Rightarrow> 'p \<Rightarrow> (go_error + 'o) \<times> 'p"

text \<open>
  The package-level helpers and the library types that the engine uses but whose code is
  not among the sources are parameters of the model: the scope and ARN helpers and the
  error wrapper of package \<^verbatim>\<open>sources\<close>, the two name methods of \<^verbatim>\<open>sdp.Item\<close>, and the
  operations of \<^verbatim>\<open>sdpcache.Cache\<close>.  The cache operations take the receiver pointer
  (\<open>None\<close> is the nil pointer) and give back the cache it points to afterwards.
\<close>

record ('it, 'c) package =
  FormatScope :: "string \<Rightarrow> string \<Rightarrow> string"
  ParseARN :: "string \<Rightarrow> go_error + ARN"
  ResourceID :: "ARN \<Rightarrow> string"
  WrapAWSError :: "go_error \<Rightarrow> go_error"
  DefaultMaxResultsPerPage :: "32 word"
  UniqueAttributeValue :: "'it \<Rightarrow> string"
  GloballyUniqueName :: "'it \<Rightarrow> string"
  NewCache :: 'c
  Lookup :: "'c option \<Rightarrow> go_context \<Rightarrow> string \<Rightarrow> QueryMethod \<Rightarrow> string \<Rightarrow> string \<Rightarrow> string \<Rightarrow> bool
    \<Rightarrow> (bool \<times> CacheKey \<times> 'it list \<times> QueryError option) \<times> 'c option"
  StoreItem :: "'c option \<Rightarrow> 'it \<Rightarrow> Duration \<Rightarrow> CacheKey \<Rightarrow> 'c option"
  StoreError :: "'c option \<Rightarrow> go_error \<Rightarrow> Duration \<Rightarrow> CacheKey \<Rightarrow> 'c option"

section \<open>The source\<close>

text \<open>
  The struct \<^verbatim>\<open>DescribeOnlySource[Input, Output, ClientStruct, Options]\<close>.  A function
  field is \<open>None\<close> when it is nil.  \<open>Region\<close> is \<^verbatim>\<open>Config.Region\<close>.  The last field is the
  log of calls.
\<close>

record ('i, 'o, 'cl, 'it, 'p, 'c) DescribeOnlySource =
  MaxResultsPerPage :: "32 word"
  ItemType :: string
  CacheDuration :: Duration
  cache :: "'c option"
  DescribeFunc :: "(go_context \<Rightarrow> 'cl \<Rightarrow> 'i \<Rightarrow> go_error + 'o) option"
  InputMapperGet :: "(string \<Rightarrow> string \<Rightarrow> go_error + 'i) option"
  InputMapperList :: "(string \<Rightarrow> go_error + 'i) option"
  InputMapperSearch :: "(go_context \<Rightarrow> 'cl \<Rightarrow> string \<Rightarrow> string \<Rightarrow> go_error + 'i) option"
  PaginatorBuilder :: "('cl \<Rightarrow> 'i \<Rightarrow> ('p, 'o) Paginator) option"
  OutputMapper :: "(go_context \<Rightarrow> 'cl \<Rightarrow> string \<Rightarrow> 'i \<Rightarrow> 'o \<Rightarrow> go_error + 'it list) option"
  Region :: string
  AccountID :: string
  Client :: 'cl
  UseListForGet :: bool
  calls :: "('i, 'it) call list"

definition logCall ::
  "('i, 'it) call \<Rightarrow> ('i, 'o, 'cl, 'it, 'p, 'c) DescribeOnlySource
    \<Rightarrow> ('i, 'o, 'cl, 'it, 'p, 'c) DescribeOnlySource" where
  "logCall c s = s\<lparr>calls := calls s @ [c]\<rparr>"

definition cacheDuration :: "('i, 'o, 'cl, 'it, 'p, 'c) DescribeOnlySource \<Rightarrow> Duration" where
  "cacheDuration s = (if CacheDuration s = 0 then DefaultCacheDuration else CacheDuration s)"

definition ensureCache ::
  "('it, 'c) package \<Rightarrow> ('i, 'o, 'cl, 'it, 'p, 'c) DescribeOnlySource
    \<Rightarrow> ('i, 'o, 'cl, 'it, 'p, 'c) DescribeOnlySource" where
  "ensureCache d s = (if cache s = None then s\<lparr>cache := Some (NewCache d)\<rparr> else s)"

definition Validate ::
  "('it, 'c) package \<Rightarrow> ('i, 'o, 'cl, 'it, 'p, 'c) DescribeOnlySource
    \<Rightarrow> go_error option \<times> ('i, 'o, 'cl, 'it, 'p, 'c) DescribeOnlySource" where
  "Validate d s =
     (if DescribeFunc s = None then (Some (ErrorsNew ''source describe func is nil''), s)
      else
        let s1 = (if MaxResultsPerPage s = 0
                  then s\<lparr>MaxResultsPerPage := DefaultMaxResultsPerPage d\<rparr> else s)
        in if InputMapperGet s1 = None
           then (Some (ErrorsNew ''source get input mapper is nil''), s1)
           else if OutputMapper s1 = None
           then (Some (ErrorsNew ''source output mapper is nil''), s1)
           else (None, s1))"

definition Paginated :: "('i, 'o, 'cl, 'it, 'p, 'c) DescribeOnlySource \<Rightarrow> bool" where
  "Paginated s = (PaginatorBuilder s \<noteq> None)"

definition Type :: "('i, 'o, 'cl, 'it, 'p, 'c) DescribeOnlySource \<Rightarrow> string" where
  "Type s = ItemType s"

definition Name :: "('i, 'o, 'cl, 'it, 'p, 'c) DescribeOnlySource \<Rightarrow> string" where
  "Name s = ItemType s @ ''-source''"

definition Scopes ::
  "('it, 'c) package \<Rightarrow> ('i, 'o, 'cl, 'it, 'p, 'c) DescribeOnlySource \<Rightarrow> string list" where
  "Scopes d s = [FormatScope d (AccountID s) (Region s)]"

definition Weight :: "('i, 'o, 'cl, 'it, 'p, 'c) DescribeOnlySource \<Rightarrow> int" where
  "Weight s = 100"

text \<open>\<^verbatim>\<open>strings.Join\<close>.\<close>

fun Join :: "string list \<Rightarrow> string \<Rightarrow> string" where
  "Join [] sep = []"
| "Join [x] sep = x"
| "Join (x # y # ys) sep = x @ sep @ Join (y # ys) sep"

text \<open>The three store calls of the engine, each with its entry in the log.\<close>

definition cacheStoreError ::
  "('it, 'c) package \<Rightarrow> go_error \<Rightarrow> Duration \<Rightarrow> CacheKey
    \<Rightarrow> ('i, 'o, 'cl, 'it, 'p, 'c) DescribeOnlySource
    \<Rightarrow> ('i, 'o, 'cl, 'it, 'p, 'c) DescribeOnlySource" where
  "cacheStoreError d err dur ck s =
     s\<lparr>cache := StoreError d (cache s) err dur ck,
       calls := calls s @ [CacheStoreError err dur ck]\<rparr>"

definition cacheStoreItem ::
  "('it, 'c) package \<Rightarrow> 'it \<Rightarrow> Duration \<Rightarrow> CacheKey
    \<Rightarrow> ('i, 'o, 'cl, 'it, 'p, 'c) DescribeOnlySource
    \<Rightarrow> ('i, 'o, 'cl, 'it, 'p, 'c) DescribeOnlySource" where
  "cacheStoreItem d item dur ck s =
     s\<lparr>cache := StoreItem d (cache s) item dur ck,
       calls := calls s @ [CacheStoreItem item dur ck]\<rparr>"

text \<open>The loop \<^verbatim>\<open>for _, item := range items { s.cache.StoreItem(item, ...) }\<close>.\<close>

fun storeItems ::
  "('it, 'c) package \<Rightarrow> 'it list \<Rightarrow> CacheKey
    \<Rightarrow> ('i, 'o, 'cl, 'it, 'p, 'c) DescribeOnlySource
    \<Rightarrow> ('i, 'o, 'cl, 'it, 'p, 'c) DescribeOnlySource" where
  "storeItems d [] ck s = s"
| "storeItems d (item # items) ck s =
     storeItems d items ck (cacheStoreItem d item (cacheDuration s) ck s)"

section \<open>describe\<close>

text \<open>
  The paginated loop of \<^verbatim>\<open>describe\<close> (lines 377-389).  Nothing bounds the number of pages
  a paginator offers, so the loop is a partial function: \<open>None\<close> is the run that never
  leaves the loop.  The loop starts with the empty list of line 372.
\<close>

partial_function (option) drainPages ::
  "go_context \<Rightarrow> string \<Rightarrow> 'i \<Rightarrow> ('p, 'o) Paginator \<Rightarrow> 'it list
    \<Rightarrow> ('i, 'o, 'cl, 'it, 'p, 'c) DescribeOnlySource
    \<Rightarrow> ('it list result \<times> ('i, 'o, 'cl, 'it, 'p, 'c) DescribeOnlySource) option" where
  "drainPages ctx scope input paginator items s =
     (if HasMorePages paginator (pstate paginator)
      then
        (case NextPage paginator ctx (pstate paginator) of
           (Inl err, p') \<Rightarrow>
             Some (Error err, logCall CallNextPage (logCall CallHasMorePages s))
         | (Inr output, p') \<Rightarrow>
             (case OutputMapper s of
                None \<Rightarrow>
                  Some (Panic ''nil OutputMapper'',
                        logCall CallNextPage (logCall CallHasMorePages s))
              | Some om \<Rightarrow>
                  (case om ctx (Client s) scope input output of
                     Inl err \<Rightarrow>
                       Some (Error err,
                             logCall CallOutputMapper
                               (logCall CallNextPage (logCall CallHasMorePages s)))
                   | Inr newItems \<Rightarrow>
                       drainPages ctx scope input (paginator\<lparr>pstate := p'\<rparr>)
                         (items @ newItems)
                         (logCall CallOutputMapper
                            (logCall CallNextPage (logCall CallHasMorePages s))))))
      else Some (Return items, logCall CallHasMorePages s))"

text \<open>
  \<^verbatim>\<open>describe\<close> (lines 367-403).  The test \<^verbatim>\<open>s.Paginated()\<close> is the test of the builder
  against nil, written here as the case distinction that also gives the builder.
\<close>

definition describe ::
  "go_context \<Rightarrow> 'i \<Rightarrow> string \<Rightarrow> ('i, 'o, 'cl, 'it, 'p, 'c) DescribeOnlySource
    \<Rightarrow> ('it list result \<times> ('i, 'o, 'cl, 'it, 'p, 'c) DescribeOnlySource) option" where
  "describe ctx input scope s =
     (case PaginatorBuilder s of
        Some pb \<Rightarrow>
          drainPages ctx scope input (pb (Client s) input) []
            (logCall (CallPaginatorBuilder input) s)
      | None \<Rightarrow>
          (case DescribeFunc s of
             None \<Rightarrow> Some (Panic ''nil DescribeFunc'', s)
           | Some df \<Rightarrow>
               (case df ctx (Client s) input of
                  Inl err \<Rightarrow> Some (Error err, logCall (CallDescribeFunc input) s)
                | Inr output \<Rightarrow>
                    (case OutputMapper s of
                       None \<Rightarrow>
                         Some (Panic ''nil OutputMapper'', logCall (CallDescribeFunc input) s)
                     | Some om \<Rightarrow>
                         (case om ctx (Client s) scope input output of
                            Inl err \<Rightarrow>
                              Some (Error err,
                                    logCall CallOutputMapper
                                      (logCall (CallDescribeFunc input) s))
                          | Inr items \<Rightarrow>
                              Some (Return items,
                                    logCall CallOutputMapper
                                      (logCall (CallDescribeFunc input) s)))))))"

section \<open>Get\<close>

text \<open>
  The filter loop of \<^verbatim>\<open>Get\<close> under \<^verbatim>\<open>UseListForGet\<close> (lines 207-214): it appends the first
  item that satisfies the test and breaks.
\<close>

fun filterFirst :: "('it \<Rightarrow> bool) \<Rightarrow> 'it list \<Rightarrow> 'it list" where
  "filterFirst P [] = []"
| "filterFirst P (item # items) = (if P item then [item] else filterFirst P items)"

definition noScopeError :: "string \<Rightarrow> string \<Rightarrow> go_error" where
  "noScopeError scope sourceScope =
     QueryErr \<lparr>ErrorType = NOSCOPE,
       ErrorString = ''requested scope '' @ scope @ '' does not match source scope '' @ sourceScope,
       Scope = []\<rparr>"

text \<open>
  \<^verbatim>\<open>Get\<close> after the cache lookup has missed (lines 182-245), with the cache key \<open>ck\<close> that
  the lookup returned.
\<close>

definition getUncached ::
  "('it, 'c) package \<Rightarrow> go_context \<Rightarrow> string \<Rightarrow> string \<Rightarrow> CacheKey
    \<Rightarrow> ('i, 'o, 'cl, 'it, 'p, 'c) DescribeOnlySource
    \<Rightarrow> 'it option result \<times> ('i, 'o, 'cl, 'it, 'p, 'c) DescribeOnlySource" where
  "getUncached d ctx scope query ck s =
     (case InputMapperGet s of
        None \<Rightarrow> (Panic ''nil InputMapperGet'', s)
      | Some img \<Rightarrow>
     (case img scope query of
        Inl err \<Rightarrow>
          (Error (WrapAWSError d err),
           cacheStoreError d (WrapAWSError d err) (cacheDuration s) ck
             (logCall (CallInputMapperGet scope query) s))
      | Inr input \<Rightarrow>
     (case DescribeFunc s of
        None \<Rightarrow> (Panic ''nil DescribeFunc'', logCall (CallInputMapperGet scope query) s)
      | Some df \<Rightarrow>
     (case df ctx (Client s) input of
        Inl err \<Rightarrow>
          (Error (WrapAWSError d err),
           cacheStoreError d (WrapAWSError d err) (cacheDuration s) ck
             (logCall (CallDescribeFunc input) (logCall (CallInputMapperGet scope query) s)))
      | Inr output \<Rightarrow>
     (case OutputMapper s of
        None \<Rightarrow>
          (Panic ''nil OutputMapper'',
           logCall (CallDescribeFunc input) (logCall (CallInputMapperGet scope query) s))
      | Some om \<Rightarrow>
     (case om ctx (Client s) scope input output of
        Inl err \<Rightarrow>
          (Error (WrapAWSError d err),
           cacheStoreError d (WrapAWSError d err) (cacheDuration s) ck
             (logCall CallOutputMapper
               (logCall (CallDescribeFunc input) (logCall (CallInputMapperGet scope query) s))))
      | Inr mapped \<Rightarrow>
          let s1 = logCall CallOutputMapper
                     (logCall (CallDescribeFunc input)
                       (logCall (CallInputMapperGet scope query) s));
              items = (if UseListForGet s
                       then filterFirst (\<lambda>item. UniqueAttributeValue d item = query) mapped
                       else mapped);
              numItems = length items
          in
            if numItems > 1 then
              let qErr = QueryErr \<lparr>ErrorType = OTHER,
                    ErrorString = ''Request returned > 1 item for a GET request. Items: ''
                      @ Join (map (GloballyUniqueName d) items) '', '',
                    Scope = []\<rparr>
              in (Error qErr, cacheStoreError d qErr (cacheDuration s1) ck s1)
            else if numItems = 0 then
              let qErr = QueryErr \<lparr>ErrorType = NOTFOUND,
                    ErrorString = Type s1 @ '' '' @ query @ '' not found'',
                    Scope = []\<rparr>
              in (Error qErr, cacheStoreError d qErr (cacheDuration s1) ck s1)
            else
              (Return (Some (items ! 0)),
               cacheStoreItem d (items ! 0) (cacheDuration s1) ck s1)))))))"

text \<open>
  \<^verbatim>\<open>Get\<close> (lines 151-246).  The item pointer it returns is \<open>None\<close> when the code returns
  nil.
\<close>

definition Get ::
  "('it, 'c) package \<Rightarrow> go_context \<Rightarrow> string \<Rightarrow> string \<Rightarrow> bool
    \<Rightarrow> ('i, 'o, 'cl, 'it, 'p, 'c) DescribeOnlySource
    \<Rightarrow> 'it option result \<times> ('i, 'o, 'cl, 'it, 'p, 'c) DescribeOnlySource" where
  "Get d ctx scope query ignoreCache s =
     (if scope \<noteq> Scopes d s ! 0 then (Error (noScopeError scope (Scopes d s ! 0)), s)
      else
        (case Validate d s of
           (Some err, s1) \<Rightarrow> (Error (WrapAWSError d err), s1)
         | (None, s1) \<Rightarrow>
             let s2 = ensureCache d s1 in
             (case Lookup d (cache s2) ctx (Name s2) GET scope (ItemType s2) query ignoreCache of
                ((cacheHit, ck, cachedItems, qErr), c') \<Rightarrow>
                  let s3 = logCall (CacheLookup (Name s2) GET scope (ItemType s2) query ignoreCache)
                             (s2\<lparr>cache := c'\<rparr>)
                  in
                    (case qErr of
                       Some q \<Rightarrow> (Error (QueryErr q), s3)
                     | None \<Rightarrow>
                         if cacheHit then
                           (if length cachedItems > 0 then (Return (Some (cachedItems ! 0)), s3)
                            else (Return None, s3))
                         else getUncached d ctx scope query ck s3))))"

section \<open>List\<close>

text \<open>\<^verbatim>\<open>List\<close> after the cache lookup has missed (lines 278-298).\<close>

definition listUncached ::
  "('it, 'c) package \<Rightarrow> go_context \<Rightarrow> string \<Rightarrow> CacheKey
    \<Rightarrow> ('i, 'o, 'cl, 'it, 'p, 'c) DescribeOnlySource
    \<Rightarrow> ('it list result \<times> ('i, 'o, 'cl, 'it, 'p, 'c) DescribeOnlySource) option" where
  "listUncached d ctx scope ck s =
     (case InputMapperList s of
        None \<Rightarrow> Some (Panic ''nil InputMapperList'', s)
      | Some iml \<Rightarrow>
     (case iml scope of
        Inl err \<Rightarrow>
          Some (Error (WrapAWSError d err),
                cacheStoreError d (WrapAWSError d err) (cacheDuration s) ck
                  (logCall (CallInputMapperList scope) s))
      | Inr input \<Rightarrow>
     (case describe ctx input scope (logCall (CallInputMapperList scope) s) of
        None \<Rightarrow> None
      | Some (Panic msg, s1) \<Rightarrow> Some (Panic msg, s1)
      | Some (Error err, s1) \<Rightarrow>
          Some (Error (WrapAWSError d err),
                cacheStoreError d (WrapAWSError d err) (cacheDuration s1) ck s1)
      | Some (Return items, s1) \<Rightarrow> Some (Return items, storeItems d items ck s1))))"

text \<open>\<^verbatim>\<open>List\<close> (lines 249-299).\<close>

definition List ::
  "('it, 'c) package \<Rightarrow> go_context \<Rightarrow> string \<Rightarrow> bool
    \<Rightarrow> ('i, 'o, 'cl, 'it, 'p, 'c) DescribeOnlySource
    \<Rightarrow> ('it list result \<times> ('i, 'o, 'cl, 'it, 'p, 'c) DescribeOnlySource) option" where
  "List d ctx scope ignoreCache s =
     (if scope \<noteq> Scopes d s ! 0 then Some (Error (noScopeError scope (Scopes d s ! 0)), s)
      else if InputMapperList s = None then
        Some (Error (QueryErr \<lparr>ErrorType = NOTFOUND,
                ErrorString = ''list is not supported for '' @ ItemType s @ '' resources'',
                Scope = []\<rparr>), s)
      else
        (case Validate d s of
           (Some err, s1) \<Rightarrow> Some (Error (WrapAWSError d err), s1)
         | (None, s1) \<Rightarrow>
             let s2 = ensureCache d s1 in
             (case Lookup d (cache s2) ctx (Name s2) LIST scope (ItemType s2) [] ignoreCache of
                ((cacheHit, ck, cachedItems, qErr), c') \<Rightarrow>
                  let s3 = logCall (CacheLookup (Name s2) LIST scope (ItemType s2) [] ignoreCache)
                             (s2\<lparr>cache := c'\<rparr>)
                  in
                    (case qErr of
                       Some q \<Rightarrow> Some (Error (QueryErr q), s3)
                     | None \<Rightarrow>
                         if cacheHit then Some (Return cachedItems, s3)
                         else listUncached d ctx scope ck s3))))"

section \<open>Search\<close>

text \<open>
  \<^verbatim>\<open>searchARN\<close> (lines 319-342).  The slice it returns holds the pointer that \<^verbatim>\<open>Get\<close>
  returned, nil or not.
\<close>

definition searchARN ::
  "('it, 'c) package \<Rightarrow> go_context \<Rightarrow> string \<Rightarrow> string \<Rightarrow> bool
    \<Rightarrow> ('i, 'o, 'cl, 'it, 'p, 'c) DescribeOnlySource
    \<Rightarrow> 'it option list result \<times> ('i, 'o, 'cl, 'it, 'p, 'c) DescribeOnlySource" where
  "searchARN d ctx scope query ignoreCache s =
     (case ParseARN d query of
        Inl err \<Rightarrow> (Error (WrapAWSError d err), s)
      | Inr a \<Rightarrow>
          let arnScope = FormatScope d (arnAccountID a) (arnRegion a) in
          if arnScope \<noteq> scope then
            (Error (QueryErr \<lparr>ErrorType = NOSCOPE,
               ErrorString = ''ARN scope '' @ arnScope @ '' does not match request scope '' @ scope,
               Scope = scope\<rparr>), s)
          else
            (case Get d ctx scope (ResourceID d a) ignoreCache s of
               (Error err, s1) \<Rightarrow> (Error (WrapAWSError d err), s1)
             | (Panic msg, s1) \<Rightarrow> (Panic msg, s1)
             | (Return item, s1) \<Rightarrow> (Return [item], s1)))"

text \<open>\<^verbatim>\<open>searchCustom\<close> (lines 345-363).\<close>

definition searchCustom ::
  "('it, 'c) package \<Rightarrow> go_context \<Rightarrow> string \<Rightarrow> string \<Rightarrow> CacheKey
    \<Rightarrow> ('i, 'o, 'cl, 'it, 'p, 'c) DescribeOnlySource
    \<Rightarrow> ('it option list result \<times> ('i, 'o, 'cl, 'it, 'p, 'c) DescribeOnlySource) option" where
  "searchCustom d ctx scope query ck s =
     (case InputMapperSearch s of
        None \<Rightarrow> Some (Panic ''nil InputMapperSearch'', s)
      | Some ims \<Rightarrow>
     (case ims ctx (Client s) scope query of
        Inl err \<Rightarrow>
          Some (Error (WrapAWSError d err), logCall (CallInputMapperSearch scope query) s)
      | Inr input \<Rightarrow>
     (case describe ctx input scope (logCall (CallInputMapperSearch scope query) s) of
        None \<Rightarrow> None
      | Some (Panic msg, s1) \<Rightarrow> Some (Panic msg, s1)
      | Some (Error err, s1) \<Rightarrow>
          Some (Error (WrapAWSError d err),
                cacheStoreError d (WrapAWSError d err) (cacheDuration s1) ck s1)
      | Some (Return items, s1) \<Rightarrow>
          Some (Return (map Some items), storeItems d items ck s1))))"

text \<open>\<^verbatim>\<open>Search\<close> (lines 302-317).\<close>

definition Search ::
  "('it, 'c) package \<Rightarrow> go_context \<Rightarrow> string \<Rightarrow> string \<Rightarrow> bool
    \<Rightarrow> ('i, 'o, 'cl, 'it, 'p, 'c) DescribeOnlySource
    \<Rightarrow> ('it option list result \<times> ('i, 'o, 'cl, 'it, 'p, 'c) DescribeOnlySource) option" where
  "Search d ctx scope query ignoreCache s =
     (if scope \<noteq> Scopes d s ! 0 then Some (Error (noScopeError scope (Scopes d s ! 0)), s)
      else
        let ck = CacheKeyFromParts (Name s) SEARCH scope (ItemType s) query in
        if InputMapperSearch s = None then Some (searchARN d ctx scope query ignoreCache s)
        else searchCustom d ctx scope query ck s)"

section \<open>Notions for the statements\<close>

text \<open>
  The source as \<^verbatim>\<open>Get\<close> and \<^verbatim>\<open>List\<close> have it when they look the cache up: validated
  (lines 164, 264) and with its cache initialised (lines 169, 269).
\<close>

definition prepared ::
  "('it, 'c) package \<Rightarrow> ('i, 'o, 'cl, 'it, 'p, 'c) DescribeOnlySource
    \<Rightarrow> ('i, 'o, 'cl, 'it, 'p, 'c) DescribeOnlySource" where
  "prepared d s = ensureCache d (snd (Validate d s))"

text \<open>The calls a run of the engine added to the log of the source it started from.\<close>

definition newCalls ::
  "('i, 'o, 'cl, 'it, 'p, 'c) DescribeOnlySource \<Rightarrow> ('i, 'o, 'cl, 'it, 'p, 'c) DescribeOnlySource
    \<Rightarrow> ('i, 'it) call list" where
  "newCalls s s' = drop (length (calls s)) (calls s')"

text \<open>
  What a paginator does when it is asked page by page: \<open>servedPages ctx pg outs\<close> is the
  paginator after it has offered and returned the pages \<open>outs\<close>, in this order and each
  with a nil error; it is \<open>None\<close> if the paginator does not do so.
\<close>

fun servedPages ::
  "go_context \<Rightarrow> ('p, 'o) Paginator \<Rightarrow> 'o list \<Rightarrow> ('p, 'o) Paginator option" where
  "servedPages ctx pg [] = Some pg"
| "servedPages ctx pg (out # outs) =
     (if HasMorePages pg (pstate pg) then
        (case NextPage pg ctx (pstate pg) of
           (Inl err, p') \<Rightarrow> None
         | (Inr out', p') \<Rightarrow>
             if out' = out then servedPages ctx (pg\<lparr>pstate := p'\<rparr>) outs else None)
      else None)"

text \<open>The calls of one round of the page loop that maps a page.\<close>

definition pageRound :: "('i, 'it) call list" where
  "pageRound = [CallHasMorePages, CallNextPage, CallOutputMapper]"

section \<open>The collaborators as the spec describes them\<close>

text \<open>
  The theorems about the engine hold for every \<open>package\<close>.  To run the engine on concrete
  inputs, and for the two properties that depend on what the cache gives back, the
  collaborators are also given as the spec describes them.
\<close>

text \<open>
  Modelled from the spec: \<^verbatim>\<open>sdp.Item\<close> is a library type.  The spec gives an item a type, the
  name of its unique attribute, its attributes and its scope; the value of the unique
  attribute identifies the item within its scope.
\<close>

record Item =
  itemType :: string
  itemUniqueAttribute :: string
  itemAttributes :: "(string \<times> string) list"
  itemScope :: string

definition itemUniqueAttributeValue :: "Item \<Rightarrow> string" where
  "itemUniqueAttributeValue item =
     (case map_of (itemAttributes item) (itemUniqueAttribute item) of
        Some v \<Rightarrow> v
      | None \<Rightarrow> [])"

definition itemGloballyUniqueName :: "Item \<Rightarrow> string" where
  "itemGloballyUniqueName item =
     itemScope item @ ''.'' @ itemType item @ ''.'' @ itemUniqueAttributeValue item"

text \<open>
  Modelled from the spec: \<^verbatim>\<open>FormatScope\<close> is missing from the sources.  The spec gives the
  scope string as \<^verbatim>\<open>{accountID}.{region}\<close> for regional resources and the account id alone
  for global ones.
\<close>

definition formatScope :: "string \<Rightarrow> string \<Rightarrow> string" where
  "formatScope accountID region =
     (if region = [] then accountID else accountID @ ''.'' @ region)"

text \<open>
  Modelled from the spec: \<^verbatim>\<open>ParseARN\<close> and \<^verbatim>\<open>ARN.ResourceID\<close> are missing from the sources.
  The spec's example is \<^verbatim>\<open>arn:aws:service:region:111111111111:resource/abc\<close>, whose account
  is \<^verbatim>\<open>111111111111\<close>, whose region is \<^verbatim>\<open>region\<close> and whose resource id is \<^verbatim>\<open>abc\<close>: six
  sections separated by colons, the resource id following the first separator of the last
  section.
\<close>

fun splitN :: "nat \<Rightarrow> char \<Rightarrow> string \<Rightarrow> string list" where
  "splitN 0 sep str = []"
| "splitN (Suc 0) sep str = [str]"
| "splitN (Suc (Suc n)) sep str =
     (if sep \<in> set str
      then takeWhile (\<lambda>c. c \<noteq> sep) str # splitN (Suc n) sep (tl (dropWhile (\<lambda>c. c \<noteq> sep) str))
      else [str])"

definition parseARN :: "string \<Rightarrow> go_error + ARN" where
  "parseARN query =
     (case splitN 6 CHR '':'' query of
        [pfx, part, service, region, account, resource] \<Rightarrow>
          if pfx = ''arn''
          then Inr \<lparr>arnAccountID = account, arnRegion = region, arnResource = resource\<rparr>
          else Inl (ErrorsNew ''arn: invalid prefix'')
      | _ \<Rightarrow> Inl (ErrorsNew ''arn: not enough sections''))"

definition resourceID :: "ARN \<Rightarrow> string" where
  "resourceID a =
     (case dropWhile (\<lambda>c. c \<noteq> CHR ''/'' \<and> c \<noteq> CHR '':'') (arnResource a) of
        [] \<Rightarrow> arnResource a
      | _ # rest \<Rightarrow> rest)"

text \<open>
  Modelled from the spec: \<^verbatim>\<open>WrapAWSError\<close> is missing from the sources.  The spec has every
  error wrapped into the taxonomy of query errors, an upstream failure being of the Other
  kind.
\<close>

fun errorText :: "go_error \<Rightarrow> string" where
  "errorText (QueryErr q) = ErrorString q"
| "errorText (ErrorsNew msg) = msg"
| "errorText ContextCanceled = ''context canceled''"
| "errorText ContextDeadlineExceeded = ''context deadline exceeded''"
| "errorText (UpstreamErr msg) = msg"

fun asQueryError :: "go_error \<Rightarrow> QueryError" where
  "asQueryError (QueryErr q) = q"
| "asQueryError err = \<lparr>ErrorType = OTHER, ErrorString = errorText err, Scope = []\<rparr>"

definition wrapAWSError :: "go_error \<Rightarrow> go_error" where
  "wrapAWSError err = QueryErr (asQueryError err)"

text \<open>
  Modelled from the spec: the cache library \<^verbatim>\<open>sdpcache\<close> is not among the sources.  The spec
  describes a cache entry as keyed by (source name, method, scope, item type, query
  string) and holding either a result item set or a recorded error, stored with a
  duration; a lookup with \<^verbatim>\<open>ignoreCache\<close> never hits; a lookup returns a hit flag, the key,
  the cached items and the error of the entry.  Expiry is not a step of this model: an
  entry stays until it is overwritten, so a run of calls in the model is a run with no
  expiry between the calls.  A nil cache pointer misses on lookup and ignores stores.
\<close>

datatype 'it CachedResult =
    CachedItems "'it list" Duration
  | CachedError go_error Duration

type_synonym 'it Cache = "CacheKey \<Rightarrow> 'it CachedResult option"

definition cacheLookup ::
  "'it Cache option \<Rightarrow> go_context \<Rightarrow> string \<Rightarrow> QueryMethod \<Rightarrow> string \<Rightarrow> string \<Rightarrow> string \<Rightarrow> bool
    \<Rightarrow> (bool \<times> CacheKey \<times> 'it list \<times> QueryError option) \<times> 'it Cache option" where
  "cacheLookup c ctx srcName method scope typ query ignoreCache =
     (let ck = CacheKeyFromParts srcName method scope typ query in
      if ignoreCache then ((False, ck, [], None), c)
      else
        (case c of
           None \<Rightarrow> ((False, ck, [], None), c)
         | Some entries \<Rightarrow>
             (case entries ck of
                None \<Rightarrow> ((False, ck, [], None), c)
              | Some (CachedItems items dur) \<Rightarrow> ((True, ck, items, None), c)
              | Some (CachedError err dur) \<Rightarrow> ((True, ck, [], Some (asQueryError err)), c))))"

definition cacheAddItem ::
  "'it Cache option \<Rightarrow> 'it \<Rightarrow> Duration \<Rightarrow> CacheKey \<Rightarrow> 'it Cache option" where
  "cacheAddItem c item dur ck =
     (case c of
        None \<Rightarrow> None
      | Some entries \<Rightarrow>
          Some (entries(ck \<mapsto>
            (case entries ck of
               Some (CachedItems items _) \<Rightarrow> CachedItems (items @ [item]) dur
             | _ \<Rightarrow> CachedItems [item] dur))))"

definition cacheAddError ::
  "'it Cache option \<Rightarrow> go_error \<Rightarrow> Duration \<Rightarrow> CacheKey \<Rightarrow> 'it Cache option" where
  "cacheAddError c err dur ck =
     (case c of
        None \<Rightarrow> None
      | Some entries \<Rightarrow> Some (entries(ck \<mapsto> CachedError err dur)))"

text \<open>
  The package with all of the above.  The value of \<^verbatim>\<open>DefaultMaxResultsPerPage\<close> is not in
  the sources either; nothing the engine returns depends on it.
\<close>

definition specPackage :: "(Item, Item Cache) package" where
  "specPackage =
     \<lparr>FormatScope = formatScope,
      ParseARN = parseARN,
      ResourceID = resourceID,
      WrapAWSError = wrapAWSError,
      DefaultMaxResultsPerPage = 100,
      UniqueAttributeValue = itemUniqueAttributeValue,
      GloballyUniqueName = itemGloballyUniqueName,
      NewCache = Map.empty,
      Lookup = cacheLookup,
      StoreItem = cacheAddItem,
      StoreError = cacheAddError\<rparr>"

text \<open>
  Any package with its cache operations replaced by the cache of the spec.
\<close>

definition withSpecCache :: "('it, 'c) package \<Rightarrow> ('it, 'it Cache) package" where
  "withSpecCache d =
     \<lparr>FormatScope = FormatScope d,
      ParseARN = ParseARN d,
      ResourceID = ResourceID d,
      WrapAWSError = WrapAWSError d,
      DefaultMaxResultsPerPage = DefaultMaxResultsPerPage d,
      UniqueAttributeValue = UniqueAttributeValue d,
      GloballyUniqueName = GloballyUniqueName d,
      NewCache = Map.empty,
      Lookup = cacheLookup,
      StoreItem = cacheAddItem,
      StoreError = cacheAddError\<rparr>"

section \<open>A source to run the engine on\<close>

text \<open>
  A source in the shape of the EC2 sources of the repository (src/unnamed/part_002): the
  input is the list of ids asked for (none for a list request), the output is the list of
  resources found, and the output mapper makes one item per resource.  The account holds
  the resources named in \<open>subnets\<close>.  The describe function gives back the context's
  error when the context is finished.
\<close>

definition subnetItem :: "string \<Rightarrow> string \<Rightarrow> Item" where
  "subnetItem scope subnetId =
     \<lparr>itemType = ''ec2-subnet'', itemUniqueAttribute = ''subnetId'',
      itemAttributes = [(''subnetId'', subnetId)], itemScope = scope\<rparr>"

definition describeSubnets :: "string list \<Rightarrow> go_context \<Rightarrow> unit \<Rightarrow> string list \<Rightarrow> go_error + string list" where
  "describeSubnets subnets ctx client input =
     (case ctxErr ctx of
        Some err \<Rightarrow> Inl err
      | None \<Rightarrow> Inr (if input = [] then subnets else filter (\<lambda>subnet. subnet \<in> set input) subnets))"

definition subnetOutputMapper ::
  "go_context \<Rightarrow> unit \<Rightarrow> string \<Rightarrow> string list \<Rightarrow> string list \<Rightarrow> go_error + Item list" where
  "subnetOutputMapper ctx client scope input output = Inr (map (subnetItem scope) output)"

definition subnetSource ::
  "string list \<Rightarrow> (string list, string list, unit, Item, 'p, 'c) DescribeOnlySource" where
  "subnetSource subnets =
     \<lparr>MaxResultsPerPage = 0,
      ItemType = ''ec2-subnet'',
      CacheDuration = 0,
      cache = None,
      DescribeFunc = Some (describeSubnets subnets),
      InputMapperGet = Some (\<lambda>scope query. Inr [query]),
      InputMapperList = Some (\<lambda>scope. Inr []),
      InputMapperSearch = None,
      PaginatorBuilder = None,
      OutputMapper = Some subnetOutputMapper,
      Region = ''region'',
      AccountID = ''111111111111'',
      Client = (),
      UseListForGet = False,
      calls = []\<rparr>"

text \<open>
  A paginator over a fixed list of page results: its state is the list of the pages still
  to come.
\<close>

definition listPaginator :: "(go_error + 'o) list \<Rightarrow> ((go_error + 'o) list, 'o) Paginator" where
  "listPaginator pages =
     \<lparr>pstate = pages,
      HasMorePages = (\<lambda>rest. rest \<noteq> []),
      NextPage = (\<lambda>ctx rest. case rest of
                     [] \<Rightarrow> (Inl (UpstreamErr ''no more pages''), [])
                   | page # rest' \<Rightarrow> (page, rest'))\<rparr>"

text \<open>A live context, and the context after \<^verbatim>\<open>cancel()\<close>.\<close>

definition background :: go_context where
  "background = Context None"

definition cancelled :: go_context where
  "cancelled = Context (Some ContextCanceled)"

text \<open>The source used below: two subnets in the account, no cache yet.\<close>

type_synonym ExampleSource =
  "(string list, string list, unit, Item, (go_error + string list) list, Item Cache)
     DescribeOnlySource"

definition exampleSource :: ExampleSource where
  "exampleSource = subnetSource [''subnet-1'', ''subnet-2'']"

definition exampleScope :: string where
  "exampleScope = ''111111111111.region''"

text \<open>
  The example source with a cache that holds, for the GET of \<^verbatim>\<open>subnet-9\<close>, an entry with an
  empty item set.
\<close>

definition emptyEntrySource :: ExampleSource where
  "emptyEntrySource =
     exampleSource\<lparr>cache :=
       Some [CacheKey ''ec2-subnet-source'' GET exampleScope ''ec2-subnet'' ''subnet-9''
               \<mapsto> CachedItems [] DefaultCacheDuration]\<rparr>"

text \<open>The example source without a list input mapper.\<close>

definition noListSource :: ExampleSource where
  "noListSource = exampleSource\<lparr>InputMapperList := None\<rparr>"

text \<open>
  A source that, like the sources with \<^verbatim>\<open>UseListForGet\<close>, asks for everything whatever the
  query is, over three resources; and the same source with \<^verbatim>\<open>UseListForGet\<close> set.
\<close>

definition describeAllSource :: ExampleSource where
  "describeAllSource =
     (subnetSource [''id-1'', ''id-2'', ''id-3''])\<lparr>InputMapperGet := Some (\<lambda>scope query. Inr [])\<rparr>"

definition useListSource :: ExampleSource where
  "useListSource = describeAllSource\<lparr>UseListForGet := True\<rparr>"

text \<open>
  The example source after a \<^verbatim>\<open>Get\<close> of \<^verbatim>\<open>subnet-9\<close>, which the account does not have, and
  the source that asks for everything after a \<^verbatim>\<open>Get\<close> of \<^verbatim>\<open>id-2\<close>.
\<close>

definition subnet9NotFound :: go_error where
  "subnet9NotFound =
     QueryErr \<lparr>ErrorType = NOTFOUND, ErrorString = ''ec2-subnet subnet-9 not found'',
       Scope = []\<rparr>"

definition afterNotFound :: ExampleSource where
  "afterNotFound =
     exampleSource\<lparr>
       MaxResultsPerPage := 100,
       cache := Some [CacheKey ''ec2-subnet-source'' GET exampleScope ''ec2-subnet'' ''subnet-9''
                        \<mapsto> CachedError subnet9NotFound DefaultCacheDuration],
       calls := [CacheLookup ''ec2-subnet-source'' GET exampleScope ''ec2-subnet'' ''subnet-9'' False,
                 CallInputMapperGet exampleScope ''subnet-9'',
                 CallDescribeFunc [''subnet-9''],
                 CallOutputMapper,
                 CacheStoreError subnet9NotFound DefaultCacheDuration
                   (CacheKey ''ec2-subnet-source'' GET exampleScope ''ec2-subnet'' ''subnet-9'')]\<rparr>"

definition id2Ambiguous :: go_error where
  "id2Ambiguous =
     QueryErr \<lparr>ErrorType = OTHER,
       ErrorString = ''Request returned > 1 item for a GET request. Items: ''
         @ ''111111111111.region.ec2-subnet.id-1, ''
         @ ''111111111111.region.ec2-subnet.id-2, ''
         @ ''111111111111.region.ec2-subnet.id-3'',
       Scope = []\<rparr>"

definition afterAmbiguous :: ExampleSource where
  "afterAmbiguous =
     describeAllSource\<lparr>
       MaxResultsPerPage := 100,
       cache := Some [CacheKey ''ec2-subnet-source'' GET exampleScope ''ec2-subnet'' ''id-2''
                        \<mapsto> CachedError id2Ambiguous DefaultCacheDuration],
       calls := [CacheLookup ''ec2-subnet-source'' GET exampleScope ''ec2-subnet'' ''id-2'' True,
                 CallInputMapperGet exampleScope ''id-2'',
                 CallDescribeFunc [],
                 CallOutputMapper,
                 CacheStoreError id2Ambiguous DefaultCacheDuration
                   (CacheKey ''ec2-subnet-source'' GET exampleScope ''ec2-subnet'' ''id-2'')]\<rparr>"

text \<open>
  The ARN of the spec's example, a source whose account holds the resource \<^verbatim>\<open>abc\<close>, and
  the same source in another account.
\<close>

definition abcARN :: string where
  "abcARN = ''arn:aws:service:region:111111111111:resource/abc''"

definition abcSource :: ExampleSource where
  "abcSource = subnetSource [''abc'']"

definition otherAccountSource :: ExampleSource where
  "otherAccountSource = abcSource\<lparr>AccountID := ''222222222222''\<rparr>"

text \<open>
  The example source with a search input mapper of its own, which refuses the empty query
  and otherwise asks for the resource named by the query.
\<close>

definition customSearchSource :: ExampleSource where
  "customSearchSource =
     exampleSource\<lparr>InputMapperSearch :=
       Some (\<lambda>ctx client scope query.
               if query = [] then Inl (ErrorsNew ''empty search query'') else Inr [query])\<rparr>"

text \<open>
  The example source over a paginated API that returns the given page results, the three
  pages of two, two and one resources of the spec's example, and the same pages with the
  second one failing.
\<close>

definition pagedSource :: "(go_error + string list) list \<Rightarrow> ExampleSource" where
  "pagedSource pages =
     exampleSource\<lparr>PaginatorBuilder := Some (\<lambda>client input. listPaginator pages)\<rparr>"

definition threePages :: "(go_error + string list) list" where
  "threePages = [Inr [''a'', ''b''], Inr [''c'', ''d''], Inr [''e'']]"

definition secondPageFails :: "(go_error + string list) list" where
  "secondPageFails = [Inr [''a'', ''b''], Inl (UpstreamErr ''page 2 failed''), Inr [''e'']]"

text \<open>
  A source for an account without resources, and that source after one \<^verbatim>\<open>List\<close>.
\<close>

definition emptyAccountSource :: ExampleSource where
  "emptyAccountSource = subnetSource []"

definition afterEmptyList :: ExampleSource where
  "afterEmptyList =
     emptyAccountSource\<lparr>
       MaxResultsPerPage := 100,
       cache := Some Map.empty,
       calls := [CacheLookup ''ec2-subnet-source'' LIST exampleScope ''ec2-subnet'' [] False,
                 CallInputMapperList exampleScope,
                 CallDescribeFunc [],
                 CallOutputMapper]\<rparr>"

text \<open>The example source after one \<^verbatim>\<open>List\<close>.\<close>

definition afterList :: ExampleSource where
  "afterList =
     exampleSource\<lparr>
       MaxResultsPerPage := 100,
       cache := Some [CacheKey ''ec2-subnet-source'' LIST exampleScope ''ec2-subnet'' []
                        \<mapsto> CachedItems (map (subnetItem exampleScope) [''subnet-1'', ''subnet-2''])
                             DefaultCacheDuration],
       calls := [CacheLookup ''ec2-subnet-source'' LIST exampleScope ''ec2-subnet'' [] False,
                 CallInputMapperList exampleScope,
                 CallDescribeFunc [],
                 CallOutputMapper,
                 CacheStoreItem (subnetItem exampleScope ''subnet-1'') DefaultCacheDuration
                   (CacheKey ''ec2-subnet-source'' LIST exampleScope ''ec2-subnet'' []),
                 CacheStoreItem (subnetItem exampleScope ''subnet-2'') DefaultCacheDuration
                   (CacheKey ''ec2-subnet-source'' LIST exampleScope ''ec2-subnet'' [])]\<rparr>"

section \<open>Properties of the engine\<close>

lemmas engine_defs =
  Get_def getUncached_def List_def listUncached_def Search_def searchARN_def
  searchCustom_def describe_def Validate_def ensureCache_def Scopes_def Name_def Type_def
  cacheDuration_def logCall_def cacheStoreError_def cacheStoreItem_def noScopeError_def
  CacheKeyFromParts_def Paginated_def Let_def

lemmas spec_defs =
  specPackage_def withSpecCache_def formatScope_def parseARN_def resourceID_def
  wrapAWSError_def cacheLookup_def cacheAddItem_def cacheAddError_def
  itemUniqueAttributeValue_def itemGloballyUniqueName_def subnetSource_def subnetItem_def
  describeSubnets_def subnetOutputMapper_def listPaginator_def background_def cancelled_def
  DefaultCacheDuration_def exampleSource_def exampleScope_def Let_def

subsection \<open>Scope validation\<close>

text \<open>
  C2.  A request for a scope other than the one scope of the source,
  \<^verbatim>\<open>FormatScope(AccountID, Region)\<close>, is answered by \<^verbatim>\<open>Get\<close>, \<^verbatim>\<open>List\<close> and \<^verbatim>\<open>Search\<close> alike
  with a NOSCOPE query error, and the source is left exactly as it was: the cache is the
  same and the log of calls has no new entry, so there was no \<^verbatim>\<open>Lookup\<close>, no \<^verbatim>\<open>StoreItem\<close>
  and no \<^verbatim>\<open>StoreError\<close>.
\<close>

theorem scope_mismatch_is_noscope_and_leaves_source:
  assumes "scope \<noteq> FormatScope d (AccountID s) (Region s)"
  shows "Get d ctx scope query ignoreCache s =
           (Error (QueryErr \<lparr>ErrorType = NOSCOPE,
              ErrorString = ''requested scope '' @ scope @ '' does not match source scope ''
                @ FormatScope d (AccountID s) (Region s), Scope = []\<rparr>), s)
       \<and> List d ctx scope ignoreCache s =
           Some (Error (QueryErr \<lparr>ErrorType = NOSCOPE,
              ErrorString = ''requested scope '' @ scope @ '' does not match source scope ''
                @ FormatScope d (AccountID s) (Region s), Scope = []\<rparr>), s)
       \<and> Search d ctx scope query ignoreCache s =
           Some (Error (QueryErr \<lparr>ErrorType = NOSCOPE,
              ErrorString = ''requested scope '' @ scope @ '' does not match source scope ''
                @ FormatScope d (AccountID s) (Region s), Scope = []\<rparr>), s)"
  using assms by (simp add: Get_def List_def Search_def Scopes_def noScopeError_def)

theorem scope_mismatch_witness:
  "''222222222222.region'' \<noteq> FormatScope specPackage (AccountID exampleSource) (Region exampleSource)
   \<and> Get specPackage background ''222222222222.region'' ''subnet-1'' False exampleSource =
        (Error (QueryErr \<lparr>ErrorType = NOSCOPE,
           ErrorString = ''requested scope 222222222222.region does not match source scope 111111111111.region'',
           Scope = []\<rparr>), exampleSource)
   \<and> List specPackage background ''222222222222.region'' False exampleSource =
        Some (Error (QueryErr \<lparr>ErrorType = NOSCOPE,
           ErrorString = ''requested scope 222222222222.region does not match source scope 111111111111.region'',
           Scope = []\<rparr>), exampleSource)
   \<and> Search specPackage background ''222222222222.region'' ''subnet-1'' False exampleSource =
        Some (Error (QueryErr \<lparr>ErrorType = NOSCOPE,
           ErrorString = ''requested scope 222222222222.region does not match source scope 111111111111.region'',
           Scope = []\<rparr>), exampleSource)"
  using scope_mismatch_is_noscope_and_leaves_source
    [of "''222222222222.region''" specPackage exampleSource background "''subnet-1''" False]
  by (simp add: exampleSource_def subnetSource_def specPackage_def formatScope_def)

subsection \<open>The source before and after the cache lookup\<close>

lemma Validate_None_iff:
  "fst (Validate d s) = None \<longleftrightarrow>
     DescribeFunc s \<noteq> None \<and> InputMapperGet s \<noteq> None \<and> OutputMapper s \<noteq> None"
  by (simp add: Validate_def Let_def)

lemma Validate_snd:
  "snd (Validate d s) =
     (if DescribeFunc s \<noteq> None \<and> MaxResultsPerPage s = 0
      then s\<lparr>MaxResultsPerPage := DefaultMaxResultsPerPage d\<rparr> else s)"
  by (simp add: Validate_def Let_def)

lemma prepared_fields [simp]:
  "ItemType (prepared d s) = ItemType s"
  "CacheDuration (prepared d s) = CacheDuration s"
  "DescribeFunc (prepared d s) = DescribeFunc s"
  "InputMapperGet (prepared d s) = InputMapperGet s"
  "InputMapperList (prepared d s) = InputMapperList s"
  "InputMapperSearch (prepared d s) = InputMapperSearch s"
  "PaginatorBuilder (prepared d s) = PaginatorBuilder s"
  "OutputMapper (prepared d s) = OutputMapper s"
  "Region (prepared d s) = Region s"
  "AccountID (prepared d s) = AccountID s"
  "Client (prepared d s) = Client s"
  "UseListForGet (prepared d s) = UseListForGet s"
  "calls (prepared d s) = calls s"
  "cache (prepared d s) = (case cache s of None \<Rightarrow> Some (NewCache d) | Some c \<Rightarrow> Some c)"
  by (simp_all add: prepared_def ensureCache_def Validate_snd split: option.splits)

lemma Get_after_lookup:
  assumes "scope = FormatScope d (AccountID s) (Region s)"
    and "fst (Validate d s) = None"
    and "Lookup d (cache (prepared d s)) ctx (Name s) GET scope (ItemType s) query ignoreCache
           = ((cacheHit, ck, cachedItems, qErr), c')"
  shows "Get d ctx scope query ignoreCache s =
           (case qErr of
              Some q \<Rightarrow> (Error (QueryErr q),
                         logCall (CacheLookup (Name s) GET scope (ItemType s) query ignoreCache)
                           ((prepared d s)\<lparr>cache := c'\<rparr>))
            | None \<Rightarrow>
                if cacheHit then
                  (if length cachedItems > 0 then Return (Some (cachedItems ! 0)) else Return None,
                   logCall (CacheLookup (Name s) GET scope (ItemType s) query ignoreCache)
                     ((prepared d s)\<lparr>cache := c'\<rparr>))
                else getUncached d ctx scope query ck
                       (logCall (CacheLookup (Name s) GET scope (ItemType s) query ignoreCache)
                          ((prepared d s)\<lparr>cache := c'\<rparr>)))"
proof -
  obtain e s1 where v: "Validate d s = (e, s1)" by (cases "Validate d s")
  with assms(2) have e: "e = None" by simp
  have s1: "ensureCache d s1 = prepared d s" using v by (simp add: prepared_def)
  have n: "Name (prepared d s) = Name s" by (simp add: Name_def)
  show ?thesis
    using assms(1,3) v e s1 n
    by (simp add: Get_def Scopes_def Let_def split: option.splits)
qed

lemma List_after_lookup:
  assumes "scope = FormatScope d (AccountID s) (Region s)"
    and "InputMapperList s \<noteq> None"
    and "fst (Validate d s) = None"
    and "Lookup d (cache (prepared d s)) ctx (Name s) LIST scope (ItemType s) [] ignoreCache
           = ((cacheHit, ck, cachedItems, qErr), c')"
  shows "List d ctx scope ignoreCache s =
           (case qErr of
              Some q \<Rightarrow> Some (Error (QueryErr q),
                         logCall (CacheLookup (Name s) LIST scope (ItemType s) [] ignoreCache)
                           ((prepared d s)\<lparr>cache := c'\<rparr>))
            | None \<Rightarrow>
                if cacheHit then
                  Some (Return cachedItems,
                   logCall (CacheLookup (Name s) LIST scope (ItemType s) [] ignoreCache)
                     ((prepared d s)\<lparr>cache := c'\<rparr>))
                else listUncached d ctx scope ck
                       (logCall (CacheLookup (Name s) LIST scope (ItemType s) [] ignoreCache)
                          ((prepared d s)\<lparr>cache := c'\<rparr>)))"
proof -
  obtain e s1 where v: "Validate d s = (e, s1)" by (cases "Validate d s")
  with assms(3) have e: "e = None" by simp
  have s1: "ensureCache d s1 = prepared d s" using v by (simp add: prepared_def)
  have n: "Name (prepared d s) = Name s" by (simp add: Name_def)
  show ?thesis
    using assms(1,2,4) v e s1 n
    by (simp add: List_def Scopes_def Let_def split: option.splits)
qed

subsection \<open>A cache hit without items\<close>

text \<open>
  C10, as the claim states it, fails: a hit on a cached error is also a hit whose list of
  cached items is empty, and there \<^verbatim>\<open>Get\<close> returns the cached error (lines 171-173), not a
  nil item with a nil error.  Here the example source has the NOTFOUND error of an earlier
  \<^verbatim>\<open>Get\<close> of \<^verbatim>\<open>subnet-9\<close> in its cache, and that \<^verbatim>\<open>Get\<close> is repeated.
\<close>

theorem Get_error_hit_returns_error:
  "Lookup specPackage (cache (prepared specPackage afterNotFound)) background
     (Name afterNotFound) GET exampleScope (ItemType afterNotFound) ''subnet-9'' False
     = ((True, CacheKey ''ec2-subnet-source'' GET exampleScope ''ec2-subnet'' ''subnet-9'', [],
         Some \<lparr>ErrorType = NOTFOUND, ErrorString = ''ec2-subnet subnet-9 not found'',
               Scope = []\<rparr>),
        cache afterNotFound)
   \<and> fst (Get specPackage background exampleScope ''subnet-9'' False afterNotFound)
       = Error (QueryErr \<lparr>ErrorType = NOTFOUND,
                  ErrorString = ''ec2-subnet subnet-9 not found'', Scope = []\<rparr>)
   \<and> fst (Get specPackage background exampleScope ''subnet-9'' False afterNotFound)
       \<noteq> Return None"
proof -
  have lk: "Lookup specPackage (cache (prepared specPackage afterNotFound)) background
     (Name afterNotFound) GET exampleScope (ItemType afterNotFound) ''subnet-9'' False
     = ((True, CacheKey ''ec2-subnet-source'' GET exampleScope ''ec2-subnet'' ''subnet-9'', [],
         Some \<lparr>ErrorType = NOTFOUND, ErrorString = ''ec2-subnet subnet-9 not found'',
               Scope = []\<rparr>),
        cache afterNotFound)"
    by (simp add: spec_defs afterNotFound_def subnet9NotFound_def Name_def
          CacheKeyFromParts_def)
  have g: "fst (Get specPackage background exampleScope ''subnet-9'' False afterNotFound)
       = Error (QueryErr \<lparr>ErrorType = NOTFOUND,
                  ErrorString = ''ec2-subnet subnet-9 not found'', Scope = []\<rparr>)"
    by (simp add: engine_defs spec_defs afterNotFound_def subnet9NotFound_def)
  have n: "fst (Get specPackage background exampleScope ''subnet-9'' False afterNotFound)
       \<noteq> Return None"
    unfolding g by simp
  show ?thesis
    by (intro conjI lk g n)
qed

text \<open>
  C10, amended.  When the lookup of \<^verbatim>\<open>Get\<close> reports a hit with no error and an empty list
  of cached items, \<^verbatim>\<open>Get\<close> returns a nil item and a nil error: the caller gets neither
  an item nor an error.  The lookup is the only call made.
\<close>

theorem Get_empty_hit_returns_nil_nil:
  assumes "scope = FormatScope d (AccountID s) (Region s)"
    and "fst (Validate d s) = None"
    and "Lookup d (cache (prepared d s)) ctx (Name s) GET scope (ItemType s) query ignoreCache
           = ((True, ck, [], None), c')"
  shows "Get d ctx scope query ignoreCache s =
           (Return None,
            (prepared d s)\<lparr>cache := c',
              calls := calls s @ [CacheLookup (Name s) GET scope (ItemType s) query ignoreCache]\<rparr>)"
  using Get_after_lookup [OF assms] by (simp add: logCall_def)

theorem Get_empty_hit_witness:
  "exampleScope = FormatScope specPackage (AccountID emptyEntrySource) (Region emptyEntrySource)
   \<and> fst (Validate specPackage emptyEntrySource) = None
   \<and> Lookup specPackage (cache (prepared specPackage emptyEntrySource)) background
        (Name emptyEntrySource) GET exampleScope (ItemType emptyEntrySource) ''subnet-9'' False
      = ((True, CacheKey ''ec2-subnet-source'' GET exampleScope ''ec2-subnet'' ''subnet-9'', [], None),
         cache emptyEntrySource)
   \<and> fst (Get specPackage background exampleScope ''subnet-9'' False emptyEntrySource) = Return None"
proof -
  have a: "exampleScope
             = FormatScope specPackage (AccountID emptyEntrySource) (Region emptyEntrySource)"
    by (simp add: spec_defs emptyEntrySource_def)
  have b: "fst (Validate specPackage emptyEntrySource) = None"
    by (simp add: Validate_None_iff spec_defs emptyEntrySource_def)
  have c: "Lookup specPackage (cache (prepared specPackage emptyEntrySource)) background
        (Name emptyEntrySource) GET exampleScope (ItemType emptyEntrySource) ''subnet-9'' False
      = ((True, CacheKey ''ec2-subnet-source'' GET exampleScope ''ec2-subnet'' ''subnet-9'', [], None),
         cache emptyEntrySource)"
    by (simp add: spec_defs emptyEntrySource_def Name_def CacheKeyFromParts_def)
  show ?thesis
    using a b c Get_empty_hit_returns_nil_nil [OF a b c] by simp
qed

subsection \<open>List without a list input mapper\<close>

text \<open>
  C6, as the claim states it, fails: the error that \<^verbatim>\<open>List\<close> returns for a source without
  \<^verbatim>\<open>InputMapperList\<close> is not of a kind of its own.  Its \<^verbatim>\<open>ErrorType\<close> is NOTFOUND, the type of
  the error of a \<^verbatim>\<open>Get\<close> that found nothing; the error types of the protocol have no member
  for an unsupported request.  Here the example source without its list input mapper is
  listed.
\<close>

theorem List_unsupported_has_type_NOTFOUND:
  "List specPackage background exampleScope False noListSource =
     Some (Error (QueryErr \<lparr>ErrorType = NOTFOUND,
             ErrorString = ''list is not supported for ec2-subnet resources'',
             Scope = []\<rparr>), noListSource)"
  by (simp add: List_def Scopes_def spec_defs noListSource_def)

text \<open>
  C6, amended.  For a source whose \<^verbatim>\<open>InputMapperList\<close> is nil, \<^verbatim>\<open>List\<close> on the source's
  scope fails at once with a query error of type NOTFOUND whose text says that list is not
  supported for the item type of the source.  The source is returned as it was: no cache
  lookup and no upstream call was made.
\<close>

theorem List_without_mapper_fails_fast:
  assumes "scope = FormatScope d (AccountID s) (Region s)"
    and "InputMapperList s = None"
  shows "List d ctx scope ignoreCache s =
           Some (Error (QueryErr \<lparr>ErrorType = NOTFOUND,
                   ErrorString = ''list is not supported for '' @ ItemType s @ '' resources'',
                   Scope = []\<rparr>), s)"
  using assms by (simp add: List_def Scopes_def)

theorem List_without_mapper_witness:
  "exampleScope = FormatScope specPackage (AccountID noListSource) (Region noListSource)
   \<and> InputMapperList noListSource = None
   \<and> List specPackage cancelled exampleScope True noListSource =
       Some (Error (QueryErr \<lparr>ErrorType = NOTFOUND,
               ErrorString = ''list is not supported for ec2-subnet resources'',
               Scope = []\<rparr>), noListSource)"
proof -
  have a: "exampleScope = FormatScope specPackage (AccountID noListSource) (Region noListSource)"
    by (simp add: spec_defs noListSource_def)
  have b: "InputMapperList noListSource = None"
    by (simp add: noListSource_def)
  show ?thesis
    using a b List_without_mapper_fails_fast [OF a b, of cancelled True]
    by (simp add: noListSource_def spec_defs)
qed

subsection \<open>Get after a cache miss\<close>

lemma filterFirst_find:
  "filterFirst P xs = (case find P xs of None \<Rightarrow> [] | Some x \<Rightarrow> [x])"
  by (induction xs) auto

lemma filterFirst_length: "length (filterFirst P xs) \<le> 1"
  by (simp add: filterFirst_find split: option.splits)

text \<open>What \<open>getUncached\<close> does once the three callbacks have succeeded.\<close>

lemma getUncached_mapped:
  assumes "InputMapperGet s = Some img" and "img scope query = Inr input"
    and "DescribeFunc s = Some df" and "df ctx (Client s) input = Inr out"
    and "OutputMapper s = Some om" and "om ctx (Client s) scope input out = Inr mapped"
    and "items = (if UseListForGet s
                  then filterFirst (\<lambda>item. UniqueAttributeValue d item = query) mapped
                  else mapped)"
    and "s1 = s\<lparr>calls := calls s @ [CallInputMapperGet scope query, CallDescribeFunc input,
                                    CallOutputMapper]\<rparr>"
  shows "getUncached d ctx scope query ck s =
     (if length items > 1 then
        (Error (QueryErr \<lparr>ErrorType = OTHER,
           ErrorString = ''Request returned > 1 item for a GET request. Items: ''
             @ Join (map (GloballyUniqueName d) items) '', '', Scope = []\<rparr>),
         cacheStoreError d (QueryErr \<lparr>ErrorType = OTHER,
           ErrorString = ''Request returned > 1 item for a GET request. Items: ''
             @ Join (map (GloballyUniqueName d) items) '', '', Scope = []\<rparr>)
           (cacheDuration s) ck s1)
      else if items = [] then
        (Error (QueryErr \<lparr>ErrorType = NOTFOUND,
           ErrorString = ItemType s @ '' '' @ query @ '' not found'', Scope = []\<rparr>),
         cacheStoreError d (QueryErr \<lparr>ErrorType = NOTFOUND,
           ErrorString = ItemType s @ '' '' @ query @ '' not found'', Scope = []\<rparr>)
           (cacheDuration s) ck s1)
      else (Return (Some (items ! 0)), cacheStoreItem d (items ! 0) (cacheDuration s) ck s1))"
  using assms
  by (simp add: getUncached_def logCall_def Let_def Type_def cacheDuration_def)

subsection \<open>Get with UseListForGet\<close>

text \<open>
  C9.  With \<^verbatim>\<open>UseListForGet\<close> set, the filter after the describe call keeps at most one
  item, the first whose unique attribute value equals the query.  So more than one item is
  never left: when the lookup has missed and the callbacks have succeeded, \<^verbatim>\<open>Get\<close> returns
  that first item, whose unique attribute value is the query, or, when no mapped item has
  the query as its unique attribute value, the NOTFOUND error.
\<close>

theorem UseListForGet_one_item_or_not_found:
  assumes "UseListForGet s"
    and "scope = FormatScope d (AccountID s) (Region s)"
    and "Lookup d (cache (prepared d s)) ctx (Name s) GET scope (ItemType s) query ignoreCache
           = ((False, ck, cachedItems, None), c')"
    and "InputMapperGet s = Some img" and "img scope query = Inr input"
    and "DescribeFunc s = Some df" and "df ctx (Client s) input = Inr out"
    and "OutputMapper s = Some om" and "om ctx (Client s) scope input out = Inr mapped"
  shows "length (filterFirst (\<lambda>item. UniqueAttributeValue d item = query) mapped) \<le> 1
    \<and> (case find (\<lambda>item. UniqueAttributeValue d item = query) mapped of
         Some item \<Rightarrow>
           fst (Get d ctx scope query ignoreCache s) = Return (Some item)
           \<and> UniqueAttributeValue d item = query
       | None \<Rightarrow>
           fst (Get d ctx scope query ignoreCache s) =
             Error (QueryErr \<lparr>ErrorType = NOTFOUND,
               ErrorString = ItemType s @ '' '' @ query @ '' not found'', Scope = []\<rparr>)
           \<and> list_all (\<lambda>item. UniqueAttributeValue d item \<noteq> query) mapped)"
proof -
  let ?P = "\<lambda>item. UniqueAttributeValue d item = query"
  let ?s3 = "logCall (CacheLookup (Name s) GET scope (ItemType s) query ignoreCache)
               ((prepared d s)\<lparr>cache := c'\<rparr>)"
  have v: "fst (Validate d s) = None"
    using assms(4,6,8) by (simp add: Validate_None_iff)
  have g: "Get d ctx scope query ignoreCache s = getUncached d ctx scope query ck ?s3"
    using Get_after_lookup [OF assms(2) v assms(3)] by simp
  have u: "getUncached d ctx scope query ck ?s3 =
     (if length (filterFirst ?P mapped) > 1 then
        (Error (QueryErr \<lparr>ErrorType = OTHER,
           ErrorString = ''Request returned > 1 item for a GET request. Items: ''
             @ Join (map (GloballyUniqueName d) (filterFirst ?P mapped)) '', '', Scope = []\<rparr>),
         cacheStoreError d (QueryErr \<lparr>ErrorType = OTHER,
           ErrorString = ''Request returned > 1 item for a GET request. Items: ''
             @ Join (map (GloballyUniqueName d) (filterFirst ?P mapped)) '', '', Scope = []\<rparr>)
           (cacheDuration ?s3) ck
           (?s3\<lparr>calls := calls ?s3 @ [CallInputMapperGet scope query, CallDescribeFunc input,
                                    CallOutputMapper]\<rparr>))
      else if filterFirst ?P mapped = [] then
        (Error (QueryErr \<lparr>ErrorType = NOTFOUND,
           ErrorString = ItemType ?s3 @ '' '' @ query @ '' not found'', Scope = []\<rparr>),
         cacheStoreError d (QueryErr \<lparr>ErrorType = NOTFOUND,
           ErrorString = ItemType ?s3 @ '' '' @ query @ '' not found'', Scope = []\<rparr>)
           (cacheDuration ?s3) ck
           (?s3\<lparr>calls := calls ?s3 @ [CallInputMapperGet scope query, CallDescribeFunc input,
                                    CallOutputMapper]\<rparr>))
      else (Return (Some (filterFirst ?P mapped ! 0)),
            cacheStoreItem d (filterFirst ?P mapped ! 0) (cacheDuration ?s3) ck
              (?s3\<lparr>calls := calls ?s3 @ [CallInputMapperGet scope query, CallDescribeFunc input,
                                    CallOutputMapper]\<rparr>)))"
    by (rule getUncached_mapped [where img = img and input = input and df = df
          and out = out and om = om and mapped = mapped])
       (use assms in \<open>simp_all add: logCall_def\<close>)
  show ?thesis
  proof (cases "find ?P mapped")
    case None
    then have "filterFirst ?P mapped = []" by (simp add: filterFirst_find)
    moreover have "list_all (\<lambda>item. UniqueAttributeValue d item \<noteq> query) mapped"
      using None by (simp add: find_None_iff list_all_iff)
    ultimately show ?thesis using None g u by (simp add: logCall_def)
  next
    case (Some item)
    then have "filterFirst ?P mapped = [item]" by (simp add: filterFirst_find)
    moreover have "UniqueAttributeValue d item = query"
      using Some by (auto simp: find_Some_iff)
    ultimately show ?thesis using Some g u by simp
  qed
qed

theorem UseListForGet_witness:
  "UseListForGet useListSource
   \<and> exampleScope = FormatScope specPackage (AccountID useListSource) (Region useListSource)
   \<and> Lookup specPackage (cache (prepared specPackage useListSource)) background
        (Name useListSource) GET exampleScope (ItemType useListSource) ''id-2'' False
      = ((False, CacheKey ''ec2-subnet-source'' GET exampleScope ''ec2-subnet'' ''id-2'', [], None),
         Some Map.empty)
   \<and> InputMapperGet useListSource = Some (\<lambda>scope query. Inr [])
   \<and> DescribeFunc useListSource = Some (describeSubnets [''id-1'', ''id-2'', ''id-3''])
   \<and> describeSubnets [''id-1'', ''id-2'', ''id-3''] background (Client useListSource) []
        = Inr [''id-1'', ''id-2'', ''id-3'']
   \<and> OutputMapper useListSource = Some subnetOutputMapper
   \<and> subnetOutputMapper background (Client useListSource) exampleScope []
        [''id-1'', ''id-2'', ''id-3'']
        = Inr (map (subnetItem exampleScope) [''id-1'', ''id-2'', ''id-3''])
   \<and> fst (Get specPackage background exampleScope ''id-2'' False useListSource)
        = Return (Some (subnetItem exampleScope ''id-2''))"
proof -
  have h1: "UseListForGet useListSource"
    by (simp add: useListSource_def)
  have h2: "exampleScope
              = FormatScope specPackage (AccountID useListSource) (Region useListSource)"
    by (simp add: useListSource_def describeAllSource_def spec_defs)
  have h3: "Lookup specPackage (cache (prepared specPackage useListSource)) background
        (Name useListSource) GET exampleScope (ItemType useListSource) ''id-2'' False
      = ((False, CacheKey ''ec2-subnet-source'' GET exampleScope ''ec2-subnet'' ''id-2'', [], None),
         Some Map.empty)"
    by (simp add: useListSource_def describeAllSource_def spec_defs Name_def
          CacheKeyFromParts_def)
  have h4: "InputMapperGet useListSource = Some (\<lambda>scope query. Inr [])"
    by (simp add: useListSource_def describeAllSource_def)
  have h6: "DescribeFunc useListSource = Some (describeSubnets [''id-1'', ''id-2'', ''id-3''])"
    by (simp add: useListSource_def describeAllSource_def subnetSource_def)
  have h7: "describeSubnets [''id-1'', ''id-2'', ''id-3''] background (Client useListSource) []
        = Inr [''id-1'', ''id-2'', ''id-3'']"
    by (simp add: describeSubnets_def background_def)
  have h8: "OutputMapper useListSource = Some subnetOutputMapper"
    by (simp add: useListSource_def describeAllSource_def subnetSource_def)
  have h9: "subnetOutputMapper background (Client useListSource) exampleScope []
        [''id-1'', ''id-2'', ''id-3'']
        = Inr (map (subnetItem exampleScope) [''id-1'', ''id-2'', ''id-3''])"
    by (simp add: subnetOutputMapper_def)
  have res: "fst (Get specPackage background exampleScope ''id-2'' False useListSource)
        = Return (Some (subnetItem exampleScope ''id-2''))"
    using UseListForGet_one_item_or_not_found
      [where s = useListSource and d = specPackage and scope = exampleScope
         and ctx = background and query = "''id-2''" and ignoreCache = False
         and ck = "CacheKey ''ec2-subnet-source'' GET exampleScope ''ec2-subnet'' ''id-2''"
         and cachedItems = "[]" and c' = "Some Map.empty"
         and img = "\<lambda>scope query. Inr []" and input = "[]"
         and df = "describeSubnets [''id-1'', ''id-2'', ''id-3'']"
         and out = "[''id-1'', ''id-2'', ''id-3'']" and om = subnetOutputMapper
         and mapped = "map (subnetItem exampleScope) [''id-1'', ''id-2'', ''id-3'']",
       OF h1 h2 h3 h4 _ h6 h7 h8 h9]
    by (simp add: specPackage_def itemUniqueAttributeValue_def subnetItem_def)
  show ?thesis
    by (intro conjI h1 h2 h3 h4 h6 h7 h8 h9 res)
qed

subsection \<open>The cache of the spec\<close>

lemma withSpecCache_fields [simp]:
  "FormatScope (withSpecCache d) = FormatScope d"
  "ParseARN (withSpecCache d) = ParseARN d"
  "ResourceID (withSpecCache d) = ResourceID d"
  "WrapAWSError (withSpecCache d) = WrapAWSError d"
  "DefaultMaxResultsPerPage (withSpecCache d) = DefaultMaxResultsPerPage d"
  "UniqueAttributeValue (withSpecCache d) = UniqueAttributeValue d"
  "GloballyUniqueName (withSpecCache d) = GloballyUniqueName d"
  "NewCache (withSpecCache d) = Map.empty"
  "Lookup (withSpecCache d) = cacheLookup"
  "StoreItem (withSpecCache d) = cacheAddItem"
  "StoreError (withSpecCache d) = cacheAddError"
  by (simp_all add: withSpecCache_def)

text \<open>A source that has been prepared and has gone through calls stays prepared.\<close>

lemma prepared_again:
  assumes "cache s1 \<noteq> None"
    and "MaxResultsPerPage s1 = MaxResultsPerPage (prepared d s)"
    and "DescribeFunc s1 = DescribeFunc s"
  shows "prepared d s1 = s1"
proof -
  have "DescribeFunc s \<noteq> None \<Longrightarrow> MaxResultsPerPage s1 = 0
          \<Longrightarrow> DefaultMaxResultsPerPage d = 0"
    using assms(2) by (simp add: prepared_def ensureCache_def Validate_snd split: if_splits)
  then have "snd (Validate d s1) = s1"
    using assms(3) by (auto simp add: Validate_snd)
  then show ?thesis using assms(1) by (simp add: prepared_def ensureCache_def)
qed

lemma cacheLookup_miss:
  assumes "fst (cacheLookup c ctx srcName meth scope ty query ignoreCache)
             = (False, ck, cachedItems, qErr)"
  shows "cacheLookup c ctx srcName meth scope ty query ignoreCache
           = ((False, CacheKey srcName meth scope ty query, [], None), c)"
    and "ck = CacheKey srcName meth scope ty query"
  using assms
  by (auto simp add: cacheLookup_def CacheKeyFromParts_def Let_def
        split: if_splits option.splits CachedResult.splits)

lemma cacheLookup_after_error:
  "cacheLookup (cacheAddError (Some es) err dur (CacheKey srcName meth scope ty query))
     ctx srcName meth scope ty query False
   = ((True, CacheKey srcName meth scope ty query, [], Some (asQueryError err)),
      cacheAddError (Some es) err dur (CacheKey srcName meth scope ty query))"
  by (simp add: cacheLookup_def cacheAddError_def CacheKeyFromParts_def Let_def)

subsection \<open>Get finds no item, or more than one\<close>

text \<open>
  C1.  A \<^verbatim>\<open>Get\<close> whose lookup misses and whose callbacks succeed is left, after the filter
  of \<^verbatim>\<open>UseListForGet\<close> if that is set, with a list of items.  If the list is empty the call
  returns a NOTFOUND query error; if it has more than one item the call returns an OTHER
  query error whose text lists the globally unique names of all the items.  Either error
  is stored in the cache under the key of the lookup.  With the cache of the spec, the
  same \<^verbatim>\<open>Get\<close> repeated at once with \<^verbatim>\<open>ignoreCache = false\<close> returns the same error, and
  the only call it makes is the cache lookup: the describe function is not called again.
\<close>

theorem Get_no_item_or_many_items_error_is_cached:
  fixes s :: "('i, 'o, 'cl, 'it, 'p, 'it Cache) DescribeOnlySource"
    and d :: "('it, 'c) package"
  defines "d' \<equiv> withSpecCache d"
  defines "lookup \<equiv> CacheLookup (Name s) GET"
  assumes scope: "scope = FormatScope d (AccountID s) (Region s)"
    and miss: "fst (Lookup d' (cache (prepared d' s)) ctx (Name s) GET scope (ItemType s) query
                 ignoreCache) = (False, ck, cachedItems, qErr)"
    and img: "InputMapperGet s = Some img" "img scope query = Inr input"
    and df: "DescribeFunc s = Some df" "df ctx (Client s) input = Inr out"
    and om: "OutputMapper s = Some om" "om ctx (Client s) scope input out = Inr mapped"
    and items: "items = (if UseListForGet s
                  then filterFirst (\<lambda>item. UniqueAttributeValue d item = query) mapped
                  else mapped)"
    and count: "items = [] \<or> length items > 1"
    and err: "err = (if items = []
                then QueryErr \<lparr>ErrorType = NOTFOUND,
                       ErrorString = ItemType s @ '' '' @ query @ '' not found'', Scope = []\<rparr>
                else QueryErr \<lparr>ErrorType = OTHER,
                       ErrorString = ''Request returned > 1 item for a GET request. Items: ''
                         @ Join (map (GloballyUniqueName d) items) '', '', Scope = []\<rparr>)"
    and s1: "s1 = (prepared d' s)\<lparr>
               cache := cacheAddError (cache (prepared d' s)) err (cacheDuration s) ck,
               calls := calls s @ [lookup scope (ItemType s) query ignoreCache,
                 CallInputMapperGet scope query, CallDescribeFunc input, CallOutputMapper,
                 CacheStoreError err (cacheDuration s) ck]\<rparr>"
  shows "Get d' ctx scope query ignoreCache s = (Error err, s1)
       \<and> Get d' ctx2 scope query False s1
           = (Error err, s1\<lparr>calls := calls s1 @ [lookup scope (ItemType s) query False]\<rparr>)"
proof -
  let ?s3 = "logCall (CacheLookup (Name s) GET scope (ItemType s) query ignoreCache)
               ((prepared d' s)\<lparr>cache := cache (prepared d' s)\<rparr>)"
  have ck: "ck = CacheKey (Name s) GET scope (ItemType s) query"
    using miss cacheLookup_miss(2) by (simp add: d'_def)
  have lk: "Lookup d' (cache (prepared d' s)) ctx (Name s) GET scope (ItemType s) query ignoreCache
              = ((False, ck, [], None), cache (prepared d' s))"
    using miss cacheLookup_miss(1) ck by (simp add: d'_def)
  have sc: "scope = FormatScope d' (AccountID s) (Region s)"
    using scope by (simp add: d'_def)
  have v: "fst (Validate d' s) = None"
    using img df om by (simp add: Validate_None_iff)
  have g: "Get d' ctx scope query ignoreCache s = getUncached d' ctx scope query ck ?s3"
    using Get_after_lookup [OF sc v lk] by simp
  have it: "items = (if UseListForGet ?s3
                  then filterFirst (\<lambda>item. UniqueAttributeValue d' item = query) mapped
                  else mapped)"
    using items by (simp add: d'_def logCall_def)
  have u: "getUncached d' ctx scope query ck ?s3 =
             (Error err, cacheStoreError d' err (cacheDuration ?s3) ck
                (?s3\<lparr>calls := calls ?s3 @ [CallInputMapperGet scope query, CallDescribeFunc input,
                                    CallOutputMapper]\<rparr>))"
    using getUncached_mapped [where s = ?s3 and d = d' and img = img and scope = scope
        and query = query and input = input and df = df and ctx = ctx and out = out and om = om
        and mapped = mapped and items = items and ck = ck, OF _ img(2) _ _ _ _ it refl]
      img df om count err
    by (auto simp add: logCall_def d'_def)
  have dur: "cacheDuration ?s3 = cacheDuration s"
    by (simp add: cacheDuration_def logCall_def)
  have first: "Get d' ctx scope query ignoreCache s = (Error err, s1)"
    unfolding g u dur s1
    by (simp add: cacheStoreError_def logCall_def d'_def lookup_def)
  obtain es where en: "cache (prepared d' s) = Some es"
    by (cases "cache s") (simp_all)
  have c1: "cache s1 = Some (es(ck \<mapsto> CachedError err (cacheDuration s)))"
    unfolding s1 using en by (simp add: cacheAddError_def del: prepared_fields)
  have sc1: "scope = FormatScope d' (AccountID s1) (Region s1)"
    using sc by (simp add: s1)
  have v1: "fst (Validate d' s1) = None"
    using img df om by (simp add: Validate_None_iff s1)
  have p1: "prepared d' s1 = s1"
    by (rule prepared_again [where s = s]) (simp_all add: c1, simp_all add: s1)
  have it1: "ItemType s1 = ItemType s" and n1: "Name s1 = Name s"
    by (simp_all add: s1 Name_def)
  have q: "QueryErr (asQueryError err) = err"
    by (simp add: err)
  have lk1: "Lookup d' (cache (prepared d' s1)) ctx2 (Name s1) GET scope (ItemType s1) query False
              = ((True, ck, [], Some (asQueryError err)), cache s1)"
    unfolding p1 using cacheLookup_after_error [where es = es and err = err
        and dur = "cacheDuration s" and srcName = "Name s" and meth = GET and scope = scope
        and ty = "ItemType s" and query = query and ctx = ctx2]
    by (simp add: c1 cacheAddError_def ck d'_def n1 it1)
  have second: "Get d' ctx2 scope query False s1
           = (Error err, s1\<lparr>calls := calls s1 @ [lookup scope (ItemType s) query False]\<rparr>)"
    using Get_after_lookup [OF sc1 v1 lk1] q
    by (simp add: p1 logCall_def lookup_def n1 it1 c1)
  show ?thesis using first second by simp
qed

lemma withSpecCache_specPackage: "withSpecCache specPackage = specPackage"
  by (simp add: withSpecCache_def specPackage_def)

theorem Get_error_is_cached_witness:
  "Get specPackage background exampleScope ''subnet-9'' False exampleSource
     = (Error subnet9NotFound, afterNotFound)
   \<and> Get specPackage cancelled exampleScope ''subnet-9'' False afterNotFound
     = (Error subnet9NotFound,
        afterNotFound\<lparr>calls := calls afterNotFound @
          [CacheLookup ''ec2-subnet-source'' GET exampleScope ''ec2-subnet'' ''subnet-9'' False]\<rparr>)
   \<and> Get specPackage background exampleScope ''id-2'' True describeAllSource
     = (Error id2Ambiguous, afterAmbiguous)
   \<and> Get specPackage cancelled exampleScope ''id-2'' False afterAmbiguous
     = (Error id2Ambiguous,
        afterAmbiguous\<lparr>calls := calls afterAmbiguous @
          [CacheLookup ''ec2-subnet-source'' GET exampleScope ''ec2-subnet'' ''id-2'' False]\<rparr>)"
proof -
  have a: "Get specPackage background exampleScope ''subnet-9'' False exampleSource
             = (Error subnet9NotFound, afterNotFound)
         \<and> Get specPackage cancelled exampleScope ''subnet-9'' False afterNotFound
             = (Error subnet9NotFound,
                afterNotFound\<lparr>calls := calls afterNotFound @
                  [CacheLookup ''ec2-subnet-source'' GET exampleScope ''ec2-subnet'' ''subnet-9''
                     False]\<rparr>)"
    using Get_no_item_or_many_items_error_is_cached
      [where d = specPackage and s = exampleSource and scope = exampleScope
         and ctx = background and ?ctx2.0 = cancelled and query = "''subnet-9''"
         and ignoreCache = False
         and ck = "CacheKey ''ec2-subnet-source'' GET exampleScope ''ec2-subnet'' ''subnet-9''"
         and cachedItems = "[]" and qErr = None
         and img = "\<lambda>scope query. Inr [query]" and input = "[''subnet-9'']"
         and df = "describeSubnets [''subnet-1'', ''subnet-2'']" and out = "[]"
         and om = subnetOutputMapper and mapped = "[]" and items = "[]"
         and err = subnet9NotFound and ?s1.0 = afterNotFound]
    unfolding withSpecCache_specPackage
    by (simp add: spec_defs Name_def CacheKeyFromParts_def cacheDuration_def
          subnet9NotFound_def afterNotFound_def prepared_def ensureCache_def
          Validate_snd)
  have b: "Get specPackage background exampleScope ''id-2'' True describeAllSource
             = (Error id2Ambiguous, afterAmbiguous)
         \<and> Get specPackage cancelled exampleScope ''id-2'' False afterAmbiguous
             = (Error id2Ambiguous,
                afterAmbiguous\<lparr>calls := calls afterAmbiguous @
                  [CacheLookup ''ec2-subnet-source'' GET exampleScope ''ec2-subnet'' ''id-2''
                     False]\<rparr>)"
    using Get_no_item_or_many_items_error_is_cached
      [where d = specPackage and s = describeAllSource and scope = exampleScope
         and ctx = background and ?ctx2.0 = cancelled and query = "''id-2''"
         and ignoreCache = True
         and ck = "CacheKey ''ec2-subnet-source'' GET exampleScope ''ec2-subnet'' ''id-2''"
         and cachedItems = "[]" and qErr = None
         and img = "\<lambda>scope query. Inr []" and input = "[]"
         and df = "describeSubnets [''id-1'', ''id-2'', ''id-3'']"
         and out = "[''id-1'', ''id-2'', ''id-3'']"
         and om = subnetOutputMapper
         and mapped = "map (subnetItem exampleScope) [''id-1'', ''id-2'', ''id-3'']"
         and items = "map (subnetItem exampleScope) [''id-1'', ''id-2'', ''id-3'']"
         and err = id2Ambiguous and ?s1.0 = afterAmbiguous]
    unfolding withSpecCache_specPackage
    by (simp add: spec_defs describeAllSource_def Name_def CacheKeyFromParts_def
          cacheDuration_def id2Ambiguous_def afterAmbiguous_def prepared_def
          ensureCache_def Validate_snd)
  show ?thesis using a b by simp
qed

subsection \<open>Get never panics\<close>

lemma getUncached_no_panic:
  assumes "InputMapperGet s \<noteq> None" and "DescribeFunc s \<noteq> None" and "OutputMapper s \<noteq> None"
  shows "fst (getUncached d ctx scope query ck s) \<noteq> Panic msg"
  using assms
  by (auto simp add: getUncached_def Let_def split: option.splits sum.splits)

lemma Get_no_panic: "fst (Get d ctx scope query ignoreCache s) \<noteq> Panic msg"
proof (cases "scope = FormatScope d (AccountID s) (Region s)")
  case False
  then show ?thesis by (simp add: Get_def Scopes_def)
next
  case scope: True
  show ?thesis
  proof (cases "fst (Validate d s)")
    case (Some err)
    then show ?thesis
      using scope by (cases "Validate d s") (simp add: Get_def Scopes_def)
  next
    case None
    obtain cacheHit ck cachedItems qErr c'
      where lk: "Lookup d (cache (prepared d s)) ctx (Name s) GET scope (ItemType s) query
                   ignoreCache = ((cacheHit, ck, cachedItems, qErr), c')"
      by (metis prod.exhaust)
    have "fst (getUncached d ctx scope query ck
                 (logCall (CacheLookup (Name s) GET scope (ItemType s) query ignoreCache)
                    ((prepared d s)\<lparr>cache := c'\<rparr>))) \<noteq> Panic msg"
      using None by (intro getUncached_no_panic) (simp_all add: Validate_None_iff logCall_def)
    then show ?thesis
      using Get_after_lookup [OF scope None lk] by (simp split: option.splits)
  qed
qed

subsection \<open>Search by ARN\<close>

text \<open>
  C3.  \<^verbatim>\<open>Search\<close> on a source without \<^verbatim>\<open>InputMapperSearch\<close> parses the query as an ARN.
  An ARN that does not parse gives the wrapped parse error.  An ARN whose account and
  region form another scope than the requested one gives a NOSCOPE query error, and the
  source is left as it was: \<^verbatim>\<open>Get\<close> was not called.  Otherwise the call is that of \<^verbatim>\<open>Get\<close>
  with the resource id of the ARN as the query: the result of \<^verbatim>\<open>Search\<close> is the list of the
  one item pointer that \<^verbatim>\<open>Get\<close> returned, or the wrapped error of \<^verbatim>\<open>Get\<close>.  In every case
  \<^verbatim>\<open>Search\<close> returns, and it does not panic.
\<close>

theorem Search_by_ARN:
  assumes "scope = FormatScope d (AccountID s) (Region s)"
    and "InputMapperSearch s = None"
  shows "(ParseARN d query = Inl err \<longrightarrow>
            Search d ctx scope query ignoreCache s = Some (Error (WrapAWSError d err), s))
       \<and> (ParseARN d query = Inr a \<and> FormatScope d (arnAccountID a) (arnRegion a) \<noteq> scope \<longrightarrow>
            Search d ctx scope query ignoreCache s =
              Some (Error (QueryErr \<lparr>ErrorType = NOSCOPE,
                      ErrorString = ''ARN scope '' @ FormatScope d (arnAccountID a) (arnRegion a)
                        @ '' does not match request scope '' @ scope,
                      Scope = scope\<rparr>), s))
       \<and> (ParseARN d query = Inr a \<and> FormatScope d (arnAccountID a) (arnRegion a) = scope
            \<and> Get d ctx scope (ResourceID d a) ignoreCache s = (Return item, s1) \<longrightarrow>
            Search d ctx scope query ignoreCache s = Some (Return [item], s1))
       \<and> (ParseARN d query = Inr a \<and> FormatScope d (arnAccountID a) (arnRegion a) = scope
            \<and> Get d ctx scope (ResourceID d a) ignoreCache s = (Error getErr, s1) \<longrightarrow>
            Search d ctx scope query ignoreCache s = Some (Error (WrapAWSError d getErr), s1))
       \<and> (\<exists>r s'. Search d ctx scope query ignoreCache s = Some (r, s') \<and> (\<forall>msg. r \<noteq> Panic msg))"
proof -
  have search: "Search d ctx scope query ignoreCache s
                  = Some (searchARN d ctx scope query ignoreCache s)"
    using assms by (simp add: Search_def Scopes_def)
  have np: "\<forall>msg. fst (searchARN d ctx scope query ignoreCache s) \<noteq> Panic msg"
  proof (cases "ParseARN d query")
    case (Inl e)
    then show ?thesis by (simp add: searchARN_def)
  next
    case (Inr b)
    show ?thesis
    proof (cases "Get d ctx scope (ResourceID d b) ignoreCache s")
      case (Pair r s2)
      then have "r \<noteq> Panic msg" for msg
        using Get_no_panic [where d = d and ctx = ctx and scope = scope
            and query = "ResourceID d b" and ignoreCache = ignoreCache and s = s and msg = msg]
        by simp
      then show ?thesis
        using Inr Pair by (cases r) (simp_all add: searchARN_def Let_def)
    qed
  qed
  have last: "\<exists>r s'. Search d ctx scope query ignoreCache s = Some (r, s')
                \<and> (\<forall>msg. r \<noteq> Panic msg)"
    using search np by (cases "searchARN d ctx scope query ignoreCache s") simp
  show ?thesis
    using last by (simp add: search searchARN_def Let_def)
qed

lemma parseARN_abcARN:
  "parseARN abcARN
     = Inr \<lparr>arnAccountID = ''111111111111'', arnRegion = ''region'',
            arnResource = ''resource/abc''\<rparr>"
  by (simp add: parseARN_def abcARN_def eval_nat_numeral)

theorem Search_by_ARN_witness:
  "ParseARN specPackage abcARN
     = Inr \<lparr>arnAccountID = ''111111111111'', arnRegion = ''region'',
            arnResource = ''resource/abc''\<rparr>
   \<and> ResourceID specPackage \<lparr>arnAccountID = ''111111111111'', arnRegion = ''region'',
            arnResource = ''resource/abc''\<rparr> = ''abc''
   \<and> fst (Get specPackage background exampleScope ''abc'' False abcSource)
       = Return (Some (subnetItem exampleScope ''abc''))
   \<and> Search specPackage background exampleScope abcARN False abcSource
       = Some (Return [Some (subnetItem exampleScope ''abc'')],
               snd (Get specPackage background exampleScope ''abc'' False abcSource))
   \<and> Search specPackage background ''222222222222.region'' abcARN False otherAccountSource
       = Some (Error (QueryErr \<lparr>ErrorType = NOSCOPE,
                 ErrorString = ''ARN scope 111111111111.region does not match request scope 222222222222.region'',
                 Scope = ''222222222222.region''\<rparr>), otherAccountSource)
   \<and> Search specPackage background exampleScope ''abc'' False abcSource
       = Some (Error (QueryErr \<lparr>ErrorType = OTHER, ErrorString = ''arn: not enough sections'',
                 Scope = []\<rparr>), abcSource)"
proof -
  let ?a = "\<lparr>arnAccountID = ''111111111111'', arnRegion = ''region'',
             arnResource = ''resource/abc''\<rparr>"
  have p: "ParseARN specPackage abcARN = Inr ?a"
    by (simp add: specPackage_def parseARN_abcARN)
  have r: "ResourceID specPackage ?a = ''abc''"
    by (simp add: specPackage_def resourceID_def)
  have g: "fst (Get specPackage background exampleScope ''abc'' False abcSource)
             = Return (Some (subnetItem exampleScope ''abc''))"
    by (simp add: engine_defs spec_defs abcSource_def)
  have one: "Search specPackage background exampleScope abcARN False abcSource
       = Some (Return [Some (subnetItem exampleScope ''abc'')],
               snd (Get specPackage background exampleScope ''abc'' False abcSource))"
    using Search_by_ARN [where d = specPackage and s = abcSource and scope = exampleScope
        and query = abcARN and ctx = background and ignoreCache = False and a = ?a
        and item = "Some (subnetItem exampleScope ''abc'')"
        and ?s1.0 = "snd (Get specPackage background exampleScope ''abc'' False abcSource)"]
      p r g
    by (simp add: abcSource_def subnetSource_def exampleScope_def prod_eq_iff,
        simp add: specPackage_def formatScope_def)
  have two: "Search specPackage background ''222222222222.region'' abcARN False otherAccountSource
       = Some (Error (QueryErr \<lparr>ErrorType = NOSCOPE,
                 ErrorString = ''ARN scope 111111111111.region does not match request scope 222222222222.region'',
                 Scope = ''222222222222.region''\<rparr>), otherAccountSource)"
    using Search_by_ARN [where d = specPackage and s = otherAccountSource
        and scope = "''222222222222.region''"
        and query = abcARN and ctx = background and ignoreCache = False and a = ?a] p
    by (simp add: otherAccountSource_def abcSource_def subnetSource_def,
        simp add: specPackage_def formatScope_def)
  have three: "Search specPackage background exampleScope ''abc'' False abcSource
       = Some (Error (QueryErr \<lparr>ErrorType = OTHER, ErrorString = ''arn: not enough sections'',
                 Scope = []\<rparr>), abcSource)"
    using Search_by_ARN [where d = specPackage and s = abcSource and scope = exampleScope
        and query = "''abc''" and ctx = background and ignoreCache = False
        and err = "ErrorsNew ''arn: not enough sections''"]
    by (simp add: abcSource_def subnetSource_def exampleScope_def,
        simp add: specPackage_def formatScope_def parseARN_def wrapAWSError_def
          eval_nat_numeral)
  show ?thesis
    by (intro conjI p r g one two three)
qed

subsection \<open>What describe touches\<close>

text \<open>
  A run of the page loop that ends changes nothing of the source but the log, and logs no
  cache call.
\<close>

lemma drainPages_frame_aux:
  assumes "drainPages ctx0 scope0 input0 pg0 items0 s0 = Some y0"
  shows "\<exists>cs. snd y0 = s0\<lparr>calls := calls s0 @ cs\<rparr> \<and> \<not> list_ex isCacheCall cs"
proof (rule drainPages.raw_induct
    [where P = "\<lambda>ctx scope input pg items s y.
                  \<exists>cs. snd y = s\<lparr>calls := calls s @ cs\<rparr> \<and> \<not> list_ex isCacheCall cs",
     OF _ assms], goal_cases)
  case (1 drain ctx scope input pg items s y)
  show ?case
  proof (cases "HasMorePages pg (pstate pg)")
    case False
    with 1(2) have "snd y = s\<lparr>calls := calls s @ [CallHasMorePages]\<rparr>"
      by (auto simp add: logCall_def)
    then show ?thesis
      by (intro exI [where x = "[CallHasMorePages]"]) simp
  next
    case more: True
    obtain res p' where np: "NextPage pg ctx (pstate pg) = (res, p')"
      by (cases "NextPage pg ctx (pstate pg)")
    show ?thesis
    proof (cases res)
      case (Inl err)
      with 1(2) more np
      have "snd y = s\<lparr>calls := calls s @ [CallHasMorePages, CallNextPage]\<rparr>"
        by (auto simp add: logCall_def)
      then show ?thesis
        by (intro exI [where x = "[CallHasMorePages, CallNextPage]"]) simp
    next
      case (Inr out)
      show ?thesis
      proof (cases "OutputMapper s")
        case None
        with 1(2) more np Inr
        have "snd y = s\<lparr>calls := calls s @ [CallHasMorePages, CallNextPage]\<rparr>"
          by (auto simp add: logCall_def)
        then show ?thesis
          by (intro exI [where x = "[CallHasMorePages, CallNextPage]"]) simp
      next
        case (Some om)
        show ?thesis
        proof (cases "om ctx (Client s) scope input out")
          case (Inl err)
          with 1(2) more np Inr Some
          have "snd y = s\<lparr>calls := calls s @ [CallHasMorePages, CallNextPage,
                                                 CallOutputMapper]\<rparr>"
            by (auto simp add: logCall_def)
          then show ?thesis
            by (intro exI [where x = "[CallHasMorePages, CallNextPage, CallOutputMapper]"])
               simp
        next
          case newItems: (Inr newItems)
          let ?s3 = "logCall CallOutputMapper
                       (logCall CallNextPage (logCall CallHasMorePages s))"
          have "drain ctx scope input (pg\<lparr>pstate := p'\<rparr>) (items @ newItems) ?s3 = Some y"
            using 1(2) more np Inr Some newItems by simp
          from 1(1) [OF this] obtain cs
            where cs: "snd y = ?s3\<lparr>calls := calls ?s3 @ cs\<rparr>" "\<not> list_ex isCacheCall cs"
            by blast
          have "snd y = s\<lparr>calls := calls s
                  @ ([CallHasMorePages, CallNextPage, CallOutputMapper] @ cs)\<rparr>"
            using cs(1) by (simp add: logCall_def)
          moreover have "\<not> list_ex isCacheCall
                             ([CallHasMorePages, CallNextPage, CallOutputMapper] @ cs)"
            using cs(2) by simp
          ultimately show ?thesis by blast
        qed
      qed
    qed
  qed
qed

text \<open>The page loop does not read the cache.\<close>

lemma drainPages_cache_aux:
  assumes "drainPages ctx0 scope0 input0 pg0 items0 s0 = Some y0"
  shows "\<forall>c. drainPages ctx0 scope0 input0 pg0 items0 (s0\<lparr>cache := c\<rparr>)
           = Some (fst y0, (snd y0)\<lparr>cache := c\<rparr>)"
proof (rule drainPages.raw_induct
    [where P = "\<lambda>ctx scope input pg items s y.
                  \<forall>c. drainPages ctx scope input pg items (s\<lparr>cache := c\<rparr>)
                        = Some (fst y, (snd y)\<lparr>cache := c\<rparr>)",
     OF _ assms], goal_cases)
  case (1 drain ctx scope input pg items s y)
  show ?case
  proof
    fix c
    show "drainPages ctx scope input pg items (s\<lparr>cache := c\<rparr>)
            = Some (fst y, (snd y)\<lparr>cache := c\<rparr>)"
    proof (cases "HasMorePages pg (pstate pg)")
      case False
      with 1(2) show ?thesis
        by (subst drainPages.simps) (auto simp add: logCall_def)
    next
      case more: True
      obtain res p' where np: "NextPage pg ctx (pstate pg) = (res, p')"
        by (cases "NextPage pg ctx (pstate pg)")
      show ?thesis
      proof (cases res)
        case (Inl err)
        with 1(2) more np show ?thesis
          by (subst drainPages.simps) (auto simp add: logCall_def)
      next
        case (Inr out)
        show ?thesis
        proof (cases "OutputMapper s")
          case None
          with 1(2) more np Inr show ?thesis
            by (subst drainPages.simps) (auto simp add: logCall_def)
        next
          case (Some om)
          show ?thesis
          proof (cases "om ctx (Client s) scope input out")
            case (Inl err)
            with 1(2) more np Inr Some show ?thesis
              by (subst drainPages.simps) (auto simp add: logCall_def)
          next
            case newItems: (Inr newItems)
            let ?s3 = "logCall CallOutputMapper
                         (logCall CallNextPage (logCall CallHasMorePages s))"
            have "drain ctx scope input (pg\<lparr>pstate := p'\<rparr>) (items @ newItems) ?s3 = Some y"
              using 1(2) more np Inr Some newItems by simp
            from 1(1) [OF this]
            have "drainPages ctx scope input (pg\<lparr>pstate := p'\<rparr>) (items @ newItems)
                    (?s3\<lparr>cache := c\<rparr>) = Some (fst y, (snd y)\<lparr>cache := c\<rparr>)"
              by blast
            moreover have "?s3\<lparr>cache := c\<rparr>
                = logCall CallOutputMapper
                    (logCall CallNextPage (logCall CallHasMorePages (s\<lparr>cache := c\<rparr>)))"
              by (simp add: logCall_def)
            ultimately show ?thesis
              using more np Inr Some newItems
              by (subst drainPages.simps) simp
          qed
        qed
      qed
    qed
  qed
qed

lemma source_cache_same: "s\<lparr>cache := cache s\<rparr> = s"
  by simp

lemma drainPages_cache:
  "drainPages ctx scope input pg items (s\<lparr>cache := c\<rparr>)
     = map_option (\<lambda>(r, s'). (r, s'\<lparr>cache := c\<rparr>)) (drainPages ctx scope input pg items s)"
proof (cases "drainPages ctx scope input pg items s")
  case (Some y)
  have "drainPages ctx scope input pg items (s\<lparr>cache := c\<rparr>)
          = Some (fst y, (snd y)\<lparr>cache := c\<rparr>)"
    using drainPages_cache_aux [OF Some] by (rule spec)
  then show ?thesis
    unfolding Some by (simp only: option.map case_prod_unfold)
next
  case None
  show ?thesis
  proof (cases "drainPages ctx scope input pg items (s\<lparr>cache := c\<rparr>)")
    case inner: None
    show ?thesis unfolding None inner by simp
  next
    case (Some y)
    have "drainPages ctx scope input pg items ((s\<lparr>cache := c\<rparr>)\<lparr>cache := cache s\<rparr>)
            = Some (fst y, (snd y)\<lparr>cache := cache s\<rparr>)"
      using drainPages_cache_aux [OF Some] by (rule spec)
    moreover have "(s\<lparr>cache := c\<rparr>)\<lparr>cache := cache s\<rparr> = s"
      by simp
    ultimately have "drainPages ctx scope input pg items s
            = Some (fst y, (snd y)\<lparr>cache := cache s\<rparr>)"
      by (simp only:)
    then show ?thesis using None by (simp only:) simp
  qed
qed

lemma describe_frame:
  assumes "describe ctx input scope s = Some (r, s')"
  shows "\<exists>cs. s' = s\<lparr>calls := calls s @ cs\<rparr> \<and> \<not> list_ex isCacheCall cs"
proof (cases "PaginatorBuilder s")
  case (Some pb)
  then have "drainPages ctx scope input (pb (Client s) input) []
               (logCall (CallPaginatorBuilder input) s) = Some (r, s')"
    using assms by (simp add: describe_def)
  from drainPages_frame_aux [OF this] obtain cs
    where cs: "s' = (logCall (CallPaginatorBuilder input) s)
                 \<lparr>calls := calls (logCall (CallPaginatorBuilder input) s) @ cs\<rparr>"
      "\<not> list_ex isCacheCall cs"
    unfolding snd_conv by (elim exE conjE)
  have "s' = s\<lparr>calls := calls s @ (CallPaginatorBuilder input # cs)\<rparr>"
    unfolding cs(1) by (simp add: logCall_def)
  moreover have "\<not> list_ex isCacheCall (CallPaginatorBuilder input # cs)"
    using cs(2) by simp
  ultimately show ?thesis by (intro exI conjI)
next
  case nopb: None
  have e0: "s' = s \<Longrightarrow> ?thesis"
    by (intro exI [where x = "[]"]) simp
  have e1: "s' = logCall (CallDescribeFunc input) s \<Longrightarrow> ?thesis"
    by (intro exI [where x = "[CallDescribeFunc input]"]) (simp add: logCall_def)
  have e2: "s' = logCall CallOutputMapper (logCall (CallDescribeFunc input) s) \<Longrightarrow> ?thesis"
    by (intro exI [where x = "[CallDescribeFunc input, CallOutputMapper]"])
       (simp add: logCall_def)
  show ?thesis
  proof (cases "DescribeFunc s")
    case None
    then have "s' = s" using assms nopb by (simp add: describe_def)
    then show ?thesis by (rule e0)
  next
    case df: (Some df)
    show ?thesis
    proof (cases "df ctx (Client s) input")
      case (Inl err)
      then have "s' = logCall (CallDescribeFunc input) s"
        using assms nopb df by (simp add: describe_def)
      then show ?thesis by (rule e1)
    next
      case out: (Inr out)
      show ?thesis
      proof (cases "OutputMapper s")
        case None
        then have "s' = logCall (CallDescribeFunc input) s"
          using assms nopb df out by (simp add: describe_def)
        then show ?thesis by (rule e1)
      next
        case om: (Some om)
        have "s' = logCall CallOutputMapper (logCall (CallDescribeFunc input) s)"
          using assms nopb df out om
          by (cases "om ctx (Client s) scope input out") (simp_all add: describe_def)
        then show ?thesis by (rule e2)
      qed
    qed
  qed
qed

lemma describe_cache:
  "describe ctx input scope (s\<lparr>cache := c\<rparr>)
     = map_option (\<lambda>(r, s'). (r, s'\<lparr>cache := c\<rparr>)) (describe ctx input scope s)"
proof (cases "PaginatorBuilder s")
  case (Some pb)
  have "logCall (CallPaginatorBuilder input) (s\<lparr>cache := c\<rparr>)
          = (logCall (CallPaginatorBuilder input) s)\<lparr>cache := c\<rparr>"
    by (simp add: logCall_def)
  then show ?thesis
    using Some drainPages_cache [where s = "logCall (CallPaginatorBuilder input) s" and c = c
        and ctx = ctx and scope = scope and input = input and pg = "pb (Client s) input"
        and items = "[]"]
    by (simp add: describe_def)
next
  case None
  then show ?thesis
    by (auto simp add: describe_def logCall_def split: option.splits sum.splits)
qed

text \<open>The store loop, as one update of the source.\<close>

lemma storeItems_eq:
  "storeItems d items ck s =
     s\<lparr>cache := fold (\<lambda>item c. StoreItem d c item (cacheDuration s) ck) items (cache s),
       calls := calls s @ map (\<lambda>item. CacheStoreItem item (cacheDuration s) ck) items\<rparr>"
proof (induction items arbitrary: s)
  case Nil
  show ?case by simp
next
  case (Cons item items)
  have "cacheDuration (cacheStoreItem d item (cacheDuration s) ck s) = cacheDuration s"
    by (simp add: cacheStoreItem_def cacheDuration_def)
  then show ?case
    by (simp add: Cons cacheStoreItem_def)
qed

subsection \<open>Search with a search input mapper\<close>

lemma isCacheLookup_isCacheCall: "isCacheLookup c \<Longrightarrow> isCacheCall c"
  by (cases c) simp_all

lemma no_cache_call_no_lookup: "\<not> list_ex isCacheCall cs \<Longrightarrow> \<not> list_ex isCacheLookup cs"
  by (auto simp add: list_ex_iff dest: isCacheLookup_isCacheCall)

lemma Search_custom:
  assumes "scope = FormatScope d (AccountID s) (Region s)"
    and "InputMapperSearch s = Some ims"
  shows "Search d ctx scope query ignoreCache s =
     (case ims ctx (Client s) scope query of
        Inl err \<Rightarrow>
          Some (Error (WrapAWSError d err), logCall (CallInputMapperSearch scope query) s)
      | Inr input \<Rightarrow>
          (case describe ctx input scope (logCall (CallInputMapperSearch scope query) s) of
             None \<Rightarrow> None
           | Some (Panic msg, s1) \<Rightarrow> Some (Panic msg, s1)
           | Some (Error err, s1) \<Rightarrow>
               Some (Error (WrapAWSError d err),
                     cacheStoreError d (WrapAWSError d err) (cacheDuration s1)
                       (CacheKey (Name s) SEARCH scope (ItemType s) query) s1)
           | Some (Return items, s1) \<Rightarrow>
               Some (Return (map Some items),
                     storeItems d items (CacheKey (Name s) SEARCH scope (ItemType s) query) s1)))"
  using assms(2)
  by (simp add: Search_def searchCustom_def Scopes_def CacheKeyFromParts_def Let_def
        assms(1) [symmetric])

text \<open>
  C8.  \<^verbatim>\<open>Search\<close> on a source with an \<^verbatim>\<open>InputMapperSearch\<close> of its own calls that mapper
  first.  An error of the mapper is returned wrapped, and nothing is stored.  Otherwise
  the describe routine runs: its error is returned wrapped and stored with \<^verbatim>\<open>StoreError\<close>,
  its items are returned and stored one by one with \<^verbatim>\<open>StoreItem\<close>, in both cases under the
  key made of the source name, SEARCH, the scope, the item type and the query.  No call of
  the run is a cache lookup, and what the run returns and which calls it makes are the
  same whatever the cache holds.
\<close>

theorem custom_Search_never_looks_up:
  assumes "scope = FormatScope d (AccountID s) (Region s)"
    and "InputMapperSearch s = Some ims"
    and "ck = CacheKey (Name s) SEARCH scope (ItemType s) query"
    and "s0 = s\<lparr>calls := calls s @ [CallInputMapperSearch scope query]\<rparr>"
  shows "(ims ctx (Client s) scope query = Inl err \<longrightarrow>
            Search d ctx scope query ignoreCache s = Some (Error (WrapAWSError d err), s0))
       \<and> (ims ctx (Client s) scope query = Inr input
            \<and> describe ctx input scope s0 = Some (Error err, s1) \<longrightarrow>
            Search d ctx scope query ignoreCache s =
              Some (Error (WrapAWSError d err),
                    s1\<lparr>cache := StoreError d (cache s) (WrapAWSError d err) (cacheDuration s) ck,
                       calls := calls s1
                         @ [CacheStoreError (WrapAWSError d err) (cacheDuration s) ck]\<rparr>))
       \<and> (ims ctx (Client s) scope query = Inr input
            \<and> describe ctx input scope s0 = Some (Return items, s1) \<longrightarrow>
            Search d ctx scope query ignoreCache s =
              Some (Return (map Some items),
                    s1\<lparr>cache := fold (\<lambda>item c. StoreItem d c item (cacheDuration s) ck) items
                                  (cache s),
                       calls := calls s1
                         @ map (\<lambda>item. CacheStoreItem item (cacheDuration s) ck) items\<rparr>))
       \<and> (Search d ctx scope query ignoreCache s = Some (r, s') \<longrightarrow>
            \<not> list_ex isCacheLookup (newCalls s s')
            \<and> take 1 (newCalls s s') = [CallInputMapperSearch scope query])
       \<and> map_option (\<lambda>(r, s'). (r, calls s'))
            (Search d ctx scope query ignoreCache (s\<lparr>cache := c2\<rparr>))
          = map_option (\<lambda>(r, s'). (r, calls s')) (Search d ctx scope query ignoreCache s)"
proof -
  note search = Search_custom [OF assms(1,2), where ctx = ctx and query = query
      and ignoreCache = ignoreCache]
  have s0: "logCall (CallInputMapperSearch scope query) s = s0"
    by (simp add: logCall_def assms(4))
  have frame: "cache s2 = cache s \<and> cacheDuration s2 = cacheDuration s
               \<and> (\<exists>cs. calls s2 = calls s @ CallInputMapperSearch scope query # cs
                       \<and> \<not> list_ex isCacheCall cs)"
    if "describe ctx inp scope s0 = Some (r2, s2)" for inp r2 s2
  proof -
    from describe_frame [OF that] obtain cs
      where cs: "s2 = s0\<lparr>calls := calls s0 @ cs\<rparr>" "\<not> list_ex isCacheCall cs"
      by (elim exE conjE)
    have "calls s2 = calls s @ CallInputMapperSearch scope query # cs"
      unfolding cs(1) by (simp add: assms(4))
    moreover have "cache s2 = cache s" "cacheDuration s2 = cacheDuration s"
      unfolding cs(1) by (simp_all add: assms(4) cacheDuration_def)
    ultimately show ?thesis using cs(2) by (intro conjI exI)
  qed
  have a: "ims ctx (Client s) scope query = Inl err \<longrightarrow>
            Search d ctx scope query ignoreCache s = Some (Error (WrapAWSError d err), s0)"
    by (simp add: search s0)
  have b: "ims ctx (Client s) scope query = Inr input
            \<and> describe ctx input scope s0 = Some (Error err, s1) \<longrightarrow>
            Search d ctx scope query ignoreCache s =
              Some (Error (WrapAWSError d err),
                    s1\<lparr>cache := StoreError d (cache s) (WrapAWSError d err) (cacheDuration s) ck,
                       calls := calls s1
                         @ [CacheStoreError (WrapAWSError d err) (cacheDuration s) ck]\<rparr>)"
  proof (intro impI, elim conjE)
    assume i: "ims ctx (Client s) scope query = Inr input"
      and de: "describe ctx input scope s0 = Some (Error err, s1)"
    from frame [OF de] have "cache s1 = cache s" "cacheDuration s1 = cacheDuration s"
      by simp_all
    then show "Search d ctx scope query ignoreCache s =
              Some (Error (WrapAWSError d err),
                    s1\<lparr>cache := StoreError d (cache s) (WrapAWSError d err) (cacheDuration s) ck,
                       calls := calls s1
                         @ [CacheStoreError (WrapAWSError d err) (cacheDuration s) ck]\<rparr>)"
      by (simp add: search s0 i de cacheStoreError_def assms(3))
  qed
  have c: "ims ctx (Client s) scope query = Inr input
            \<and> describe ctx input scope s0 = Some (Return items, s1) \<longrightarrow>
            Search d ctx scope query ignoreCache s =
              Some (Return (map Some items),
                    s1\<lparr>cache := fold (\<lambda>item c. StoreItem d c item (cacheDuration s) ck) items
                                  (cache s),
                       calls := calls s1
                         @ map (\<lambda>item. CacheStoreItem item (cacheDuration s) ck) items\<rparr>)"
  proof (intro impI, elim conjE)
    assume i: "ims ctx (Client s) scope query = Inr input"
      and de: "describe ctx input scope s0 = Some (Return items, s1)"
    from frame [OF de] have "cache s1 = cache s" "cacheDuration s1 = cacheDuration s"
      by simp_all
    then show "Search d ctx scope query ignoreCache s =
              Some (Return (map Some items),
                    s1\<lparr>cache := fold (\<lambda>item c. StoreItem d c item (cacheDuration s) ck) items
                                  (cache s),
                       calls := calls s1
                         @ map (\<lambda>item. CacheStoreItem item (cacheDuration s) ck) items\<rparr>)"
      by (simp add: search s0 i de storeItems_eq assms(3))
  qed
  have dd: "Search d ctx scope query ignoreCache s = Some (r, s') \<longrightarrow>
            \<not> list_ex isCacheLookup (newCalls s s')
            \<and> take 1 (newCalls s s') = [CallInputMapperSearch scope query]"
  proof
    assume res: "Search d ctx scope query ignoreCache s = Some (r, s')"
    show "\<not> list_ex isCacheLookup (newCalls s s')
            \<and> take 1 (newCalls s s') = [CallInputMapperSearch scope query]"
    proof (cases "ims ctx (Client s) scope query")
      case (Inl e)
      then have "s' = s0" using res by (simp add: search s0)
      then show ?thesis by (simp add: newCalls_def assms(4))
    next
      case (Inr inp)
      then obtain r2 s2 where de: "describe ctx inp scope s0 = Some (r2, s2)"
        using res by (cases "describe ctx inp scope s0") (auto simp add: search s0)
      from frame [OF de] obtain cs
        where cs: "calls s2 = calls s @ CallInputMapperSearch scope query # cs"
          "\<not> list_ex isCacheCall cs"
        by (elim exE conjE)
      have nl: "\<not> list_ex isCacheLookup cs"
        using cs(2) by (rule no_cache_call_no_lookup)
      show ?thesis
      proof (cases r2)
        case (Return its)
        then have "s' = storeItems d its (CacheKey (Name s) SEARCH scope (ItemType s) query) s2"
          using res Inr de by (simp add: search s0)
        then have "newCalls s s' = CallInputMapperSearch scope query # cs
                     @ map (\<lambda>item. CacheStoreItem item (cacheDuration s2)
                              (CacheKey (Name s) SEARCH scope (ItemType s) query)) its"
          by (simp add: storeItems_eq newCalls_def cs(1))
        then show ?thesis using nl by (auto simp add: list_ex_iff)
      next
        case (Error e)
        then have "s' = cacheStoreError d (WrapAWSError d e) (cacheDuration s2)
                     (CacheKey (Name s) SEARCH scope (ItemType s) query) s2"
          using res Inr de by (simp add: search s0)
        then have "newCalls s s' = CallInputMapperSearch scope query # cs
                     @ [CacheStoreError (WrapAWSError d e) (cacheDuration s2)
                          (CacheKey (Name s) SEARCH scope (ItemType s) query)]"
          by (simp add: cacheStoreError_def newCalls_def cs(1))
        then show ?thesis using nl by (auto simp add: list_ex_iff)
      next
        case (Panic msg)
        then have "s' = s2" using res Inr de by (simp add: search s0)
        then have "newCalls s s' = CallInputMapperSearch scope query # cs"
          by (simp add: newCalls_def cs(1))
        then show ?thesis using nl by (auto simp add: list_ex_iff)
      qed
    qed
  qed
  have e: "map_option (\<lambda>(r, s'). (r, calls s'))
            (Search d ctx scope query ignoreCache (s\<lparr>cache := c2\<rparr>))
          = map_option (\<lambda>(r, s'). (r, calls s')) (Search d ctx scope query ignoreCache s)"
  proof -
    have p1: "scope = FormatScope d (AccountID (s\<lparr>cache := c2\<rparr>)) (Region (s\<lparr>cache := c2\<rparr>))"
      using assms(1) by simp
    have p2: "InputMapperSearch (s\<lparr>cache := c2\<rparr>) = Some ims"
      using assms(2) by simp
    have k: "logCall (CallInputMapperSearch scope query) (s\<lparr>cache := c2\<rparr>) = s0\<lparr>cache := c2\<rparr>"
      by (simp add: logCall_def assms(4))
    have n: "Name (s\<lparr>cache := c2\<rparr>) = Name s" "ItemType (s\<lparr>cache := c2\<rparr>) = ItemType s"
      "Client (s\<lparr>cache := c2\<rparr>) = Client s"
      by (simp_all add: Name_def)
    note search2 = Search_custom [OF p1 p2, where ctx = ctx and query = query
        and ignoreCache = ignoreCache, unfolded k n]
    show ?thesis
    proof (cases "ims ctx (Client s) scope query")
      case (Inl err)
      then show ?thesis by (simp add: search search2 s0)
    next
      case (Inr inp)
      show ?thesis
      proof (cases "describe ctx inp scope s0")
        case None
        then show ?thesis
          using Inr by (simp add: search search2 s0 describe_cache)
      next
        case (Some y)
        obtain r2 s2 where y: "y = (r2, s2)" by (cases y)
        have dur: "cacheDuration (s2\<lparr>cache := c2\<rparr>) = cacheDuration s2"
          by (simp add: cacheDuration_def)
        show ?thesis
          using Inr Some y dur
          by (cases r2)
             (simp_all add: search search2 s0 describe_cache storeItems_eq cacheStoreError_def)
      qed
    qed
  qed
  show ?thesis
    by (intro conjI a b c dd e)
qed

theorem custom_Search_witness:
  "Search specPackage background exampleScope [] False customSearchSource
     = Some (Error (QueryErr \<lparr>ErrorType = OTHER, ErrorString = ''empty search query'',
                      Scope = []\<rparr>),
             customSearchSource\<lparr>calls := [CallInputMapperSearch exampleScope []]\<rparr>)
   \<and> Search specPackage background exampleScope ''subnet-1'' False customSearchSource
     = Some (Return [Some (subnetItem exampleScope ''subnet-1'')],
             customSearchSource\<lparr>calls :=
               [CallInputMapperSearch exampleScope ''subnet-1'',
                CallDescribeFunc [''subnet-1''],
                CallOutputMapper,
                CacheStoreItem (subnetItem exampleScope ''subnet-1'') DefaultCacheDuration
                  (CacheKey ''ec2-subnet-source'' SEARCH exampleScope ''ec2-subnet''
                     ''subnet-1'')]\<rparr>)
   \<and> Search specPackage cancelled exampleScope ''subnet-1'' False customSearchSource
     = Some (Error (QueryErr \<lparr>ErrorType = OTHER, ErrorString = ''context canceled'',
                      Scope = []\<rparr>),
             customSearchSource\<lparr>calls :=
               [CallInputMapperSearch exampleScope ''subnet-1'',
                CallDescribeFunc [''subnet-1''],
                CacheStoreError (QueryErr \<lparr>ErrorType = OTHER,
                    ErrorString = ''context canceled'', Scope = []\<rparr>) DefaultCacheDuration
                  (CacheKey ''ec2-subnet-source'' SEARCH exampleScope ''ec2-subnet''
                     ''subnet-1'')]\<rparr>)"
proof -
  let ?ims = "\<lambda>(ctx :: go_context) (client :: unit) (scope :: string) (query :: string).
                if query = [] then Inl (ErrorsNew ''empty search query'')
                else (Inr [query] :: go_error + string list)"
  have one: "Search specPackage background exampleScope [] False customSearchSource
     = Some (Error (QueryErr \<lparr>ErrorType = OTHER, ErrorString = ''empty search query'',
                      Scope = []\<rparr>),
             customSearchSource\<lparr>calls := [CallInputMapperSearch exampleScope []]\<rparr>)"
    using custom_Search_never_looks_up
      [where d = specPackage and s = customSearchSource and scope = exampleScope
         and ims = ?ims and query = "[]" and ctx = background and ignoreCache = False
         and ck = "CacheKey ''ec2-subnet-source'' SEARCH exampleScope ''ec2-subnet'' []"
         and ?s0.0 = "customSearchSource\<lparr>calls := [CallInputMapperSearch exampleScope []]\<rparr>"
         and err = "ErrorsNew ''empty search query''"]
    by (simp add: customSearchSource_def spec_defs Name_def)
  have two: "Search specPackage background exampleScope ''subnet-1'' False customSearchSource
     = Some (Return [Some (subnetItem exampleScope ''subnet-1'')],
             customSearchSource\<lparr>calls :=
               [CallInputMapperSearch exampleScope ''subnet-1'',
                CallDescribeFunc [''subnet-1''],
                CallOutputMapper,
                CacheStoreItem (subnetItem exampleScope ''subnet-1'') DefaultCacheDuration
                  (CacheKey ''ec2-subnet-source'' SEARCH exampleScope ''ec2-subnet''
                     ''subnet-1'')]\<rparr>)"
    using custom_Search_never_looks_up
      [where d = specPackage and s = customSearchSource and scope = exampleScope
         and ims = ?ims and query = "''subnet-1''" and ctx = background and ignoreCache = False
         and ck = "CacheKey ''ec2-subnet-source'' SEARCH exampleScope ''ec2-subnet''
                     ''subnet-1''"
         and ?s0.0 = "customSearchSource\<lparr>calls :=
                        [CallInputMapperSearch exampleScope ''subnet-1'']\<rparr>"
         and input = "[''subnet-1'']"
         and items = "[subnetItem exampleScope ''subnet-1'']"
         and ?s1.0 = "customSearchSource\<lparr>calls :=
                        [CallInputMapperSearch exampleScope ''subnet-1'',
                         CallDescribeFunc [''subnet-1''], CallOutputMapper]\<rparr>"]
    by (simp add: customSearchSource_def spec_defs Name_def describe_def logCall_def
          cacheDuration_def)
  have three: "Search specPackage cancelled exampleScope ''subnet-1'' False customSearchSource
     = Some (Error (QueryErr \<lparr>ErrorType = OTHER, ErrorString = ''context canceled'',
                      Scope = []\<rparr>),
             customSearchSource\<lparr>calls :=
               [CallInputMapperSearch exampleScope ''subnet-1'',
                CallDescribeFunc [''subnet-1''],
                CacheStoreError (QueryErr \<lparr>ErrorType = OTHER,
                    ErrorString = ''context canceled'', Scope = []\<rparr>) DefaultCacheDuration
                  (CacheKey ''ec2-subnet-source'' SEARCH exampleScope ''ec2-subnet''
                     ''subnet-1'')]\<rparr>)"
    using custom_Search_never_looks_up
      [where d = specPackage and s = customSearchSource and scope = exampleScope
         and ims = ?ims and query = "''subnet-1''" and ctx = cancelled and ignoreCache = False
         and ck = "CacheKey ''ec2-subnet-source'' SEARCH exampleScope ''ec2-subnet''
                     ''subnet-1''"
         and ?s0.0 = "customSearchSource\<lparr>calls :=
                        [CallInputMapperSearch exampleScope ''subnet-1'']\<rparr>"
         and input = "[''subnet-1'']"
         and err = ContextCanceled
         and ?s1.0 = "customSearchSource\<lparr>calls :=
                        [CallInputMapperSearch exampleScope ''subnet-1'',
                         CallDescribeFunc [''subnet-1'']]\<rparr>"]
    by (simp add: customSearchSource_def spec_defs Name_def describe_def logCall_def
          cacheDuration_def)
  show ?thesis
    by (intro conjI one two three)
qed

subsection \<open>A describe call that fails with the error of the context\<close>

lemma describe_unpaginated_error:
  assumes "PaginatorBuilder s = None" and "DescribeFunc s = Some df"
    and "df ctx (Client s) input = Inl err"
  shows "describe ctx input scope s
           = Some (Error err, s\<lparr>calls := calls s @ [CallDescribeFunc input]\<rparr>)"
  using assms by (simp add: describe_def logCall_def)

text \<open>
  C5, as the claim states it, fails: the engine treats the error of a cancelled context as
  any other error of the describe function and writes it to the cache.  Here the context
  of a \<^verbatim>\<open>Get\<close> on the example source is cancelled, the describe function returns
  \<^verbatim>\<open>context.Canceled\<close>, and the cache writes among the calls of the run are one
  \<^verbatim>\<open>StoreError\<close>, of the wrapped cancellation error.
\<close>

theorem cancelled_Get_stores_error:
  "describeSubnets [''subnet-1'', ''subnet-2''] cancelled () [''subnet-1''] = Inl ContextCanceled
   \<and> fst (Get specPackage cancelled exampleScope ''subnet-1'' False exampleSource)
       = Error (QueryErr \<lparr>ErrorType = OTHER, ErrorString = ''context canceled'', Scope = []\<rparr>)
   \<and> filter isCacheWrite
         (newCalls exampleSource
            (snd (Get specPackage cancelled exampleScope ''subnet-1'' False exampleSource)))
       = [CacheStoreError
            (QueryErr \<lparr>ErrorType = OTHER, ErrorString = ''context canceled'', Scope = []\<rparr>)
            DefaultCacheDuration
            (CacheKey ''ec2-subnet-source'' GET exampleScope ''ec2-subnet'' ''subnet-1'')]"
  by (simp add: engine_defs spec_defs newCalls_def)

text \<open>
  C5, amended.  When the describe function returns the error of a cancelled or expired
  context, \<^verbatim>\<open>Get\<close>, \<^verbatim>\<open>List\<close> and \<^verbatim>\<open>Search\<close> (the latter two on a source without paginator,
  \<^verbatim>\<open>Search\<close> with a search input mapper) return that error wrapped, and they do write to the
  cache: after the describe call they call \<^verbatim>\<open>StoreError\<close> once, with the wrapped error, the
  cache duration of the source and the cache key of the call.  \<^verbatim>\<open>StoreItem\<close> is not called.
\<close>

theorem context_error_of_describe_is_returned_and_stored:
  assumes "scope = FormatScope d (AccountID s) (Region s)"
    and "err = ContextCanceled \<or> err = ContextDeadlineExceeded"
    and "DescribeFunc s = Some df"
    and "InputMapperGet s = Some img"
    and "OutputMapper s = Some om"
  shows "(Lookup d (cache (prepared d s)) ctx (Name s) GET scope (ItemType s) query ignoreCache
            = ((False, ckG, cachedG, None), cG)
          \<and> img scope query = Inr inputG \<and> df ctx (Client s) inputG = Inl err \<longrightarrow>
          Get d ctx scope query ignoreCache s =
            (Error (WrapAWSError d err),
             (prepared d s)\<lparr>
               cache := StoreError d cG (WrapAWSError d err) (cacheDuration s) ckG,
               calls := calls s @
                 [CacheLookup (Name s) GET scope (ItemType s) query ignoreCache,
                  CallInputMapperGet scope query,
                  CallDescribeFunc inputG,
                  CacheStoreError (WrapAWSError d err) (cacheDuration s) ckG]\<rparr>))
       \<and> (Lookup d (cache (prepared d s)) ctx (Name s) LIST scope (ItemType s) [] ignoreCache
            = ((False, ckL, cachedL, None), cL)
          \<and> PaginatorBuilder s = None
          \<and> InputMapperList s = Some iml
          \<and> iml scope = Inr inputL \<and> df ctx (Client s) inputL = Inl err \<longrightarrow>
          List d ctx scope ignoreCache s =
            Some (Error (WrapAWSError d err),
             (prepared d s)\<lparr>
               cache := StoreError d cL (WrapAWSError d err) (cacheDuration s) ckL,
               calls := calls s @
                 [CacheLookup (Name s) LIST scope (ItemType s) [] ignoreCache,
                  CallInputMapperList scope,
                  CallDescribeFunc inputL,
                  CacheStoreError (WrapAWSError d err) (cacheDuration s) ckL]\<rparr>))
       \<and> (PaginatorBuilder s = None
          \<and> InputMapperSearch s = Some ims
          \<and> ims ctx (Client s) scope query = Inr inputS \<and> df ctx (Client s) inputS = Inl err \<longrightarrow>
          Search d ctx scope query ignoreCache s =
            Some (Error (WrapAWSError d err),
             s\<lparr>cache := StoreError d (cache s) (WrapAWSError d err) (cacheDuration s)
                         (CacheKey (Name s) SEARCH scope (ItemType s) query),
               calls := calls s @
                 [CallInputMapperSearch scope query,
                  CallDescribeFunc inputS,
                  CacheStoreError (WrapAWSError d err) (cacheDuration s)
                    (CacheKey (Name s) SEARCH scope (ItemType s) query)]\<rparr>))"
proof -
  have v: "fst (Validate d s) = None"
    using assms(3,4,5) by (simp add: Validate_None_iff)
  have g: "Get d ctx scope query ignoreCache s =
            (Error (WrapAWSError d err),
             (prepared d s)\<lparr>
               cache := StoreError d cG (WrapAWSError d err) (cacheDuration s) ckG,
               calls := calls s @
                 [CacheLookup (Name s) GET scope (ItemType s) query ignoreCache,
                  CallInputMapperGet scope query,
                  CallDescribeFunc inputG,
                  CacheStoreError (WrapAWSError d err) (cacheDuration s) ckG]\<rparr>)"
    if lk: "Lookup d (cache (prepared d s)) ctx (Name s) GET scope (ItemType s) query ignoreCache
            = ((False, ckG, cachedG, None), cG)"
      and i: "img scope query = Inr inputG" and e: "df ctx (Client s) inputG = Inl err"
    using Get_after_lookup [OF assms(1) v lk] assms(3,4) i e
    by (simp add: getUncached_def logCall_def cacheStoreError_def cacheDuration_def)
  have l: "List d ctx scope ignoreCache s =
            Some (Error (WrapAWSError d err),
             (prepared d s)\<lparr>
               cache := StoreError d cL (WrapAWSError d err) (cacheDuration s) ckL,
               calls := calls s @
                 [CacheLookup (Name s) LIST scope (ItemType s) [] ignoreCache,
                  CallInputMapperList scope,
                  CallDescribeFunc inputL,
                  CacheStoreError (WrapAWSError d err) (cacheDuration s) ckL]\<rparr>)"
    if lk: "Lookup d (cache (prepared d s)) ctx (Name s) LIST scope (ItemType s) [] ignoreCache
            = ((False, ckL, cachedL, None), cL)"
      and np: "PaginatorBuilder s = None" and ml: "InputMapperList s = Some iml"
      and i: "iml scope = Inr inputL" and e: "df ctx (Client s) inputL = Inl err"
  proof -
    have ml': "InputMapperList s \<noteq> None" using ml by simp
    show ?thesis
      using List_after_lookup [OF assms(1) ml' v lk] assms(3) np ml i e
      by (simp add: listUncached_def describe_def logCall_def cacheStoreError_def
            cacheDuration_def)
  qed
  have sr: "Search d ctx scope query ignoreCache s =
            Some (Error (WrapAWSError d err),
             s\<lparr>cache := StoreError d (cache s) (WrapAWSError d err) (cacheDuration s)
                         (CacheKey (Name s) SEARCH scope (ItemType s) query),
               calls := calls s @
                 [CallInputMapperSearch scope query,
                  CallDescribeFunc inputS,
                  CacheStoreError (WrapAWSError d err) (cacheDuration s)
                    (CacheKey (Name s) SEARCH scope (ItemType s) query)]\<rparr>)"
    if np: "PaginatorBuilder s = None" and ms: "InputMapperSearch s = Some ims"
      and i: "ims ctx (Client s) scope query = Inr inputS"
      and e: "df ctx (Client s) inputS = Inl err"
    using Search_custom [OF assms(1) ms, where ctx = ctx and query = query
        and ignoreCache = ignoreCache] assms(3) np i e
    by (simp add: describe_def logCall_def cacheStoreError_def cacheDuration_def)
  show ?thesis
    using g l sr by blast
qed

theorem context_error_witness:
  "Get specPackage cancelled exampleScope ''subnet-1'' False customSearchSource =
     (Error (QueryErr \<lparr>ErrorType = OTHER, ErrorString = ''context canceled'', Scope = []\<rparr>),
      customSearchSource\<lparr>
        MaxResultsPerPage := 100,
        cache := Some [CacheKey ''ec2-subnet-source'' GET exampleScope ''ec2-subnet'' ''subnet-1''
                   \<mapsto> CachedError (QueryErr \<lparr>ErrorType = OTHER,
                         ErrorString = ''context canceled'', Scope = []\<rparr>) DefaultCacheDuration],
        calls := [CacheLookup ''ec2-subnet-source'' GET exampleScope ''ec2-subnet'' ''subnet-1'' False,
                  CallInputMapperGet exampleScope ''subnet-1'',
                  CallDescribeFunc [''subnet-1''],
                  CacheStoreError (QueryErr \<lparr>ErrorType = OTHER,
                      ErrorString = ''context canceled'', Scope = []\<rparr>) DefaultCacheDuration
                    (CacheKey ''ec2-subnet-source'' GET exampleScope ''ec2-subnet''
                       ''subnet-1'')]\<rparr>)
   \<and> List specPackage cancelled exampleScope False customSearchSource =
     Some (Error (QueryErr \<lparr>ErrorType = OTHER, ErrorString = ''context canceled'', Scope = []\<rparr>),
      customSearchSource\<lparr>
        MaxResultsPerPage := 100,
        cache := Some [CacheKey ''ec2-subnet-source'' LIST exampleScope ''ec2-subnet'' []
                   \<mapsto> CachedError (QueryErr \<lparr>ErrorType = OTHER,
                         ErrorString = ''context canceled'', Scope = []\<rparr>) DefaultCacheDuration],
        calls := [CacheLookup ''ec2-subnet-source'' LIST exampleScope ''ec2-subnet'' [] False,
                  CallInputMapperList exampleScope,
                  CallDescribeFunc [],
                  CacheStoreError (QueryErr \<lparr>ErrorType = OTHER,
                      ErrorString = ''context canceled'', Scope = []\<rparr>) DefaultCacheDuration
                    (CacheKey ''ec2-subnet-source'' LIST exampleScope ''ec2-subnet'' [])]\<rparr>)
   \<and> Search specPackage cancelled exampleScope ''subnet-1'' False customSearchSource =
     Some (Error (QueryErr \<lparr>ErrorType = OTHER, ErrorString = ''context canceled'', Scope = []\<rparr>),
      customSearchSource\<lparr>
        calls := [CallInputMapperSearch exampleScope ''subnet-1'',
                  CallDescribeFunc [''subnet-1''],
                  CacheStoreError (QueryErr \<lparr>ErrorType = OTHER,
                      ErrorString = ''context canceled'', Scope = []\<rparr>) DefaultCacheDuration
                    (CacheKey ''ec2-subnet-source'' SEARCH exampleScope ''ec2-subnet''
                       ''subnet-1'')]\<rparr>)"
  using context_error_of_describe_is_returned_and_stored
    [where d = specPackage and s = customSearchSource and scope = exampleScope
       and err = ContextCanceled and ctx = cancelled and query = "''subnet-1''"
       and ignoreCache = False
       and df = "describeSubnets [''subnet-1'', ''subnet-2'']"
       and img = "\<lambda>scope query. Inr [query]"
       and om = subnetOutputMapper
       and ckG = "CacheKey ''ec2-subnet-source'' GET exampleScope ''ec2-subnet'' ''subnet-1''"
       and cachedG = "[]" and cG = "Some Map.empty" and inputG = "[''subnet-1'']"
       and ckL = "CacheKey ''ec2-subnet-source'' LIST exampleScope ''ec2-subnet'' []"
       and cachedL = "[]" and cL = "Some Map.empty" and inputL = "[]"
       and iml = "\<lambda>scope. Inr []"
       and ims = "\<lambda>(ctx :: go_context) (client :: unit) (scope :: string) (query :: string).
                if query = [] then Inl (ErrorsNew ''empty search query'')
                else (Inr [query] :: go_error + string list)"
       and inputS = "[''subnet-1'']"]
  by (simp add: customSearchSource_def spec_defs Name_def CacheKeyFromParts_def
        cacheDuration_def prepared_def ensureCache_def Validate_snd)

subsection \<open>The page loop\<close>

text \<open>
  While the paginator serves pages and the output mapper maps them, the loop goes round:
  it appends the items of each page and logs the three calls of the round.
\<close>

lemma drainPages_served:
  assumes "servedPages ctx pg outs = Some pg'"
    and "OutputMapper s = Some om"
    and "map (om ctx (Client s) scope input) outs = map Inr itemss"
  shows "drainPages ctx scope input pg items s =
           drainPages ctx scope input pg' (items @ concat itemss)
             (s\<lparr>calls := calls s @ concat (map (\<lambda>out. pageRound) outs)\<rparr>)"
  using assms
proof (induction outs arbitrary: pg items s itemss)
  case Nil
  then show ?case by simp
next
  case (Cons out outs)
  obtain its rest where itemss: "itemss = its # rest"
    using Cons.prems(3) by (cases itemss) simp_all
  have om_out: "om ctx (Client s) scope input out = Inr its"
    and om_rest: "map (om ctx (Client s) scope input) outs = map Inr rest"
    using Cons.prems(3) itemss by simp_all
  have more: "HasMorePages pg (pstate pg)"
    using Cons.prems(1) by (simp split: if_splits)
  obtain res p' where np: "NextPage pg ctx (pstate pg) = (res, p')"
    by (cases "NextPage pg ctx (pstate pg)")
  have res: "res = Inr out" and served: "servedPages ctx (pg\<lparr>pstate := p'\<rparr>) outs = Some pg'"
    using Cons.prems(1) more np by (cases res; simp split: if_splits)+
  let ?s3 = "logCall CallOutputMapper (logCall CallNextPage (logCall CallHasMorePages s))"
  have step: "drainPages ctx scope input pg items s =
                drainPages ctx scope input (pg\<lparr>pstate := p'\<rparr>) (items @ its) ?s3"
    using more np res Cons.prems(2) om_out
    by (subst drainPages.simps) simp
  have om3: "OutputMapper ?s3 = Some om"
    using Cons.prems(2) by (simp add: logCall_def)
  have rest3: "map (om ctx (Client ?s3) scope input) outs = map Inr rest"
    using om_rest by (simp add: logCall_def)
  have "drainPages ctx scope input (pg\<lparr>pstate := p'\<rparr>) (items @ its) ?s3 =
          drainPages ctx scope input pg' ((items @ its) @ concat rest)
            (?s3\<lparr>calls := calls ?s3 @ concat (map (\<lambda>out. pageRound) outs)\<rparr>)"
    by (rule Cons.IH [OF served om3 rest3])
  moreover have "?s3\<lparr>calls := calls ?s3 @ concat (map (\<lambda>out. pageRound) outs)\<rparr>
                   = s\<lparr>calls := calls s @ concat (map (\<lambda>out. pageRound) (out # outs))\<rparr>"
    by (simp add: logCall_def pageRound_def)
  ultimately show ?case
    using step itemss by simp
qed

text \<open>The three ways in which the loop ends.\<close>

lemma drainPages_exhausted:
  assumes "\<not> HasMorePages pg (pstate pg)"
  shows "drainPages ctx scope input pg items s
           = Some (Return items, s\<lparr>calls := calls s @ [CallHasMorePages]\<rparr>)"
  using assms by (subst drainPages.simps) (simp add: logCall_def)

lemma drainPages_NextPage_error:
  assumes "HasMorePages pg (pstate pg)" and "fst (NextPage pg ctx (pstate pg)) = Inl err"
  shows "drainPages ctx scope input pg items s
           = Some (Error err, s\<lparr>calls := calls s @ [CallHasMorePages, CallNextPage]\<rparr>)"
proof -
  obtain p' where "NextPage pg ctx (pstate pg) = (Inl err, p')"
    using assms(2) by (cases "NextPage pg ctx (pstate pg)") simp
  then show ?thesis
    using assms(1) by (subst drainPages.simps) (simp add: logCall_def)
qed

lemma drainPages_OutputMapper_error:
  assumes "HasMorePages pg (pstate pg)" and "fst (NextPage pg ctx (pstate pg)) = Inr out"
    and "OutputMapper s = Some om" and "om ctx (Client s) scope input out = Inl err"
  shows "drainPages ctx scope input pg items s
           = Some (Error err,
                   s\<lparr>calls := calls s @ [CallHasMorePages, CallNextPage, CallOutputMapper]\<rparr>)"
proof -
  obtain p' where "NextPage pg ctx (pstate pg) = (Inr out, p')"
    using assms(2) by (cases "NextPage pg ctx (pstate pg)") simp
  then show ?thesis
    using assms(1,3,4) by (subst drainPages.simps) (simp add: logCall_def)
qed

lemma count_NextPage_rounds:
  "count_list (concat (map (\<lambda>out. pageRound) outs)) CallNextPage = length outs"
  by (induction outs) (simp_all add: pageRound_def)

text \<open>\<^verbatim>\<open>List\<close> after a miss and a successful list input mapper.\<close>

lemma List_miss:
  assumes "scope = FormatScope d (AccountID s) (Region s)"
    and "InputMapperList s = Some iml" and "iml scope = Inr input"
    and "fst (Validate d s) = None"
    and "Lookup d (cache (prepared d s)) ctx (Name s) LIST scope (ItemType s) [] ignoreCache
           = ((False, ck, cachedItems, None), c')"
    and "s3 = (prepared d s)\<lparr>cache := c',
                calls := calls s @ [CacheLookup (Name s) LIST scope (ItemType s) [] ignoreCache,
                                    CallInputMapperList scope]\<rparr>"
  shows "List d ctx scope ignoreCache s =
     (case describe ctx input scope s3 of
        None \<Rightarrow> None
      | Some (Panic msg, s4) \<Rightarrow> Some (Panic msg, s4)
      | Some (Error err, s4) \<Rightarrow>
          Some (Error (WrapAWSError d err),
                cacheStoreError d (WrapAWSError d err) (cacheDuration s4) ck s4)
      | Some (Return items, s4) \<Rightarrow> Some (Return items, storeItems d items ck s4))"
proof -
  have ml: "InputMapperList s \<noteq> None" using assms(2) by simp
  have s3: "logCall (CallInputMapperList scope)
              (logCall (CacheLookup (Name s) LIST scope (ItemType s) [] ignoreCache)
                 ((prepared d s)\<lparr>cache := c'\<rparr>)) = s3"
    by (simp add: logCall_def assms(6))
  have "List d ctx scope ignoreCache s =
          listUncached d ctx scope ck
            (logCall (CacheLookup (Name s) LIST scope (ItemType s) [] ignoreCache)
               ((prepared d s)\<lparr>cache := c'\<rparr>))"
    using List_after_lookup [OF assms(1) ml assms(4,5)] by simp
  also have "\<dots> =
     (case describe ctx input scope s3 of
        None \<Rightarrow> None
      | Some (Panic msg, s4) \<Rightarrow> Some (Panic msg, s4)
      | Some (Error err, s4) \<Rightarrow>
          Some (Error (WrapAWSError d err),
                cacheStoreError d (WrapAWSError d err) (cacheDuration s4) ck s4)
      | Some (Return items, s4) \<Rightarrow> Some (Return items, storeItems d items ck s4))"
    unfolding listUncached_def s3 [symmetric]
    using assms(2,3) by (simp add: logCall_def)
  finally show ?thesis .
qed

text \<open>
  C4.  On a source with a \<^verbatim>\<open>PaginatorBuilder\<close>, the describe routine that \<^verbatim>\<open>List\<close> runs after
  a cache miss asks \<^verbatim>\<open>HasMorePages\<close>, then \<^verbatim>\<open>NextPage\<close>, then maps the page, round after
  round.  If the paginator serves the pages \<open>outs\<close> and then has no more, the routine
  returns the items of the pages, concatenated in the order of the pages, and \<^verbatim>\<open>NextPage\<close>
  was called once per page; \<^verbatim>\<open>List\<close> returns these items and stores each.  If after the
  pages \<open>outs\<close> a call of \<^verbatim>\<open>NextPage\<close> or of the output mapper gives an error, the routine
  returns that error and none of the items gathered so far; \<^verbatim>\<open>List\<close> returns the error
  wrapped, and its only cache write is the \<^verbatim>\<open>StoreError\<close> of the wrapped error.
\<close>

theorem paginated_List_drains_pages_or_fails:
  assumes "scope = FormatScope d (AccountID s) (Region s)"
    and "InputMapperList s = Some iml" and "iml scope = Inr input"
    and "DescribeFunc s \<noteq> None" and "InputMapperGet s \<noteq> None"
    and "OutputMapper s = Some om"
    and "PaginatorBuilder s = Some pb"
    and "Lookup d (cache (prepared d s)) ctx (Name s) LIST scope (ItemType s) [] ignoreCache
           = ((False, ck, cachedItems, None), c')"
    and "servedPages ctx (pb (Client s) input) outs = Some pg'"
    and "map (om ctx (Client s) scope input) outs = map Inr itemss"
    and "s3 = (prepared d s)\<lparr>cache := c',
                calls := calls s @ [CacheLookup (Name s) LIST scope (ItemType s) [] ignoreCache,
                                    CallInputMapperList scope]\<rparr>"
    and "rounds = CallPaginatorBuilder input # concat (map (\<lambda>out. pageRound) outs)"
  shows "(\<not> HasMorePages pg' (pstate pg') \<longrightarrow>
            describe ctx input scope s3 =
              Some (Return (concat itemss),
                    s3\<lparr>calls := calls s3 @ rounds @ [CallHasMorePages]\<rparr>)
          \<and> List d ctx scope ignoreCache s =
              Some (Return (concat itemss),
                    s3\<lparr>cache := fold (\<lambda>item c. StoreItem d c item (cacheDuration s) ck)
                                  (concat itemss) c',
                       calls := calls s3 @ rounds @ [CallHasMorePages]
                         @ map (\<lambda>item. CacheStoreItem item (cacheDuration s) ck)
                             (concat itemss)\<rparr>)
          \<and> count_list (rounds @ [CallHasMorePages]) CallNextPage = length outs)
       \<and> (HasMorePages pg' (pstate pg') \<and> fst (NextPage pg' ctx (pstate pg')) = Inl err \<longrightarrow>
            describe ctx input scope s3 =
              Some (Error err,
                    s3\<lparr>calls := calls s3 @ rounds @ [CallHasMorePages, CallNextPage]\<rparr>)
          \<and> List d ctx scope ignoreCache s =
              Some (Error (WrapAWSError d err),
                    s3\<lparr>cache := StoreError d c' (WrapAWSError d err) (cacheDuration s) ck,
                       calls := calls s3 @ rounds @ [CallHasMorePages, CallNextPage,
                         CacheStoreError (WrapAWSError d err) (cacheDuration s) ck]\<rparr>))
       \<and> (HasMorePages pg' (pstate pg') \<and> fst (NextPage pg' ctx (pstate pg')) = Inr out
            \<and> om ctx (Client s) scope input out = Inl err \<longrightarrow>
            describe ctx input scope s3 =
              Some (Error err, s3\<lparr>calls := calls s3 @ rounds @ pageRound\<rparr>)
          \<and> List d ctx scope ignoreCache s =
              Some (Error (WrapAWSError d err),
                    s3\<lparr>cache := StoreError d c' (WrapAWSError d err) (cacheDuration s) ck,
                       calls := calls s3 @ rounds @ pageRound
                         @ [CacheStoreError (WrapAWSError d err) (cacheDuration s) ck]\<rparr>))"
proof -
  let ?s4 = "s3\<lparr>calls := calls s3 @ rounds\<rparr>"
  have v: "fst (Validate d s) = None"
    using assms(4,5,6) by (simp add: Validate_None_iff)
  note list = List_miss [OF assms(1,2,3) v assms(8,11)]
  have f3: "PaginatorBuilder s3 = Some pb" "OutputMapper s3 = Some om" "Client s3 = Client s"
    "cacheDuration s3 = cacheDuration s" "cache s3 = c'"
    using assms(6,7) by (simp_all add: assms(11) cacheDuration_def)
  let ?s3b = "logCall (CallPaginatorBuilder input) s3"
  have omb: "OutputMapper ?s3b = Some om"
    using f3(2) by (simp add: logCall_def)
  have mapb: "map (om ctx (Client ?s3b) scope input) outs = map Inr itemss"
    using assms(10) f3(3) by (simp add: logCall_def)
  have servedb: "servedPages ctx (pb (Client s3) input) outs = Some pg'"
    using assms(9) f3(3) by simp
  have s4: "?s3b\<lparr>calls := calls ?s3b @ concat (map (\<lambda>out. pageRound) outs)\<rparr> = ?s4"
    by (simp add: logCall_def assms(12))
  have loop: "describe ctx input scope s3 =
                drainPages ctx scope input pg' (concat itemss) ?s4"
    using drainPages_served [OF servedb omb mapb, where items = "[]"] f3(1)
    unfolding s4 by (simp add: describe_def)
  have f4: "OutputMapper ?s4 = Some om" "Client ?s4 = Client s"
    using f3(2,3) by simp_all
  have dur: "cacheDuration (s3\<lparr>calls := cs\<rparr>) = cacheDuration s" for cs
    by (simp add: cacheDuration_def assms(11))
  have cnt: "count_list (rounds @ [CallHasMorePages]) CallNextPage = length outs"
    by (simp add: assms(12) count_NextPage_rounds)
  have fin: "describe ctx input scope s3 =
                Some (Return (concat itemss),
                      s3\<lparr>calls := calls s3 @ rounds @ [CallHasMorePages]\<rparr>)"
    if "\<not> HasMorePages pg' (pstate pg')"
    unfolding loop using drainPages_exhausted [OF that, where s = ?s4] by simp
  have fin_list: "List d ctx scope ignoreCache s =
              Some (Return (concat itemss),
                    s3\<lparr>cache := fold (\<lambda>item c. StoreItem d c item (cacheDuration s) ck)
                                  (concat itemss) c',
                       calls := calls s3 @ rounds @ [CallHasMorePages]
                         @ map (\<lambda>item. CacheStoreItem item (cacheDuration s) ck)
                             (concat itemss)\<rparr>)"
    if "\<not> HasMorePages pg' (pstate pg')"
    unfolding list fin [OF that] by (simp add: storeItems_eq dur f3(5))
  have np: "describe ctx input scope s3 =
              Some (Error err,
                    s3\<lparr>calls := calls s3 @ rounds @ [CallHasMorePages, CallNextPage]\<rparr>)"
    if "HasMorePages pg' (pstate pg')" "fst (NextPage pg' ctx (pstate pg')) = Inl err"
    unfolding loop using drainPages_NextPage_error [OF that, where s = ?s4] by simp
  have np_list: "List d ctx scope ignoreCache s =
              Some (Error (WrapAWSError d err),
                    s3\<lparr>cache := StoreError d c' (WrapAWSError d err) (cacheDuration s) ck,
                       calls := calls s3 @ rounds @ [CallHasMorePages, CallNextPage,
                         CacheStoreError (WrapAWSError d err) (cacheDuration s) ck]\<rparr>)"
    if "HasMorePages pg' (pstate pg')" "fst (NextPage pg' ctx (pstate pg')) = Inl err"
    unfolding list np [OF that] by (simp add: cacheStoreError_def dur f3(5))
  have me: "describe ctx input scope s3 =
              Some (Error err, s3\<lparr>calls := calls s3 @ rounds @ pageRound\<rparr>)"
    if "HasMorePages pg' (pstate pg')" "fst (NextPage pg' ctx (pstate pg')) = Inr out"
      "om ctx (Client s) scope input out = Inl err"
  proof -
    have "om ctx (Client ?s4) scope input out = Inl err"
      using that(3) f4(2) by simp
    from drainPages_OutputMapper_error [OF that(1,2) f4(1) this]
    show ?thesis unfolding loop by (simp add: pageRound_def)
  qed
  have me_list: "List d ctx scope ignoreCache s =
              Some (Error (WrapAWSError d err),
                    s3\<lparr>cache := StoreError d c' (WrapAWSError d err) (cacheDuration s) ck,
                       calls := calls s3 @ rounds @ pageRound
                         @ [CacheStoreError (WrapAWSError d err) (cacheDuration s) ck]\<rparr>)"
    if "HasMorePages pg' (pstate pg')" "fst (NextPage pg' ctx (pstate pg')) = Inr out"
      "om ctx (Client s) scope input out = Inl err"
    unfolding list me [OF that] by (simp add: cacheStoreError_def dur f3(5))
  show ?thesis
    using fin fin_list cnt np np_list me me_list by blast
qed

theorem paginated_List_witness:
  "map_option fst (List specPackage background exampleScope False (pagedSource threePages))
     = Some (Return (map (subnetItem exampleScope) [''a'', ''b'', ''c'', ''d'', ''e'']))
   \<and> map_option (\<lambda>(r, s'). count_list (calls s') CallNextPage)
         (List specPackage background exampleScope False (pagedSource threePages))
     = Some 3
   \<and> map_option (\<lambda>(r, s'). (r, filter isCacheWrite (calls s')))
         (List specPackage background exampleScope False (pagedSource secondPageFails))
     = Some (Error (QueryErr \<lparr>ErrorType = OTHER, ErrorString = ''page 2 failed'', Scope = []\<rparr>),
             [CacheStoreError
                (QueryErr \<lparr>ErrorType = OTHER, ErrorString = ''page 2 failed'', Scope = []\<rparr>)
                DefaultCacheDuration
                (CacheKey ''ec2-subnet-source'' LIST exampleScope ''ec2-subnet'' [])])"
proof -
  note three = paginated_List_drains_pages_or_fails
    [where d = specPackage and s = "pagedSource threePages" and scope = exampleScope
       and ctx = background and ignoreCache = False
       and iml = "\<lambda>scope. Inr []" and input = "[]" and om = subnetOutputMapper
       and pb = "\<lambda>client input. listPaginator threePages"
       and ck = "CacheKey ''ec2-subnet-source'' LIST exampleScope ''ec2-subnet'' []"
       and cachedItems = "[]" and c' = "Some Map.empty"
       and outs = "[[''a'', ''b''], [''c'', ''d''], [''e'']]"
       and pg' = "(listPaginator threePages)\<lparr>pstate := []\<rparr>"
       and itemss = "map (map (subnetItem exampleScope))
                       [[''a'', ''b''], [''c'', ''d''], [''e'']]",
     OF _ _ _ _ _ _ _ _ _ _ refl refl]
  note fails = paginated_List_drains_pages_or_fails
    [where d = specPackage and s = "pagedSource secondPageFails" and scope = exampleScope
       and ctx = background and ignoreCache = False
       and iml = "\<lambda>scope. Inr []" and input = "[]" and om = subnetOutputMapper
       and pb = "\<lambda>client input. listPaginator secondPageFails"
       and ck = "CacheKey ''ec2-subnet-source'' LIST exampleScope ''ec2-subnet'' []"
       and cachedItems = "[]" and c' = "Some Map.empty"
       and outs = "[[''a'', ''b'']]"
       and pg' = "(listPaginator secondPageFails)
                    \<lparr>pstate := [Inl (UpstreamErr ''page 2 failed''), Inr [''e'']]\<rparr>"
       and itemss = "[map (subnetItem exampleScope) [''a'', ''b'']]"
       and err = "UpstreamErr ''page 2 failed''",
     OF _ _ _ _ _ _ _ _ _ _ refl refl]
  have a: "map_option fst (List specPackage background exampleScope False (pagedSource threePages))
     = Some (Return (map (subnetItem exampleScope) [''a'', ''b'', ''c'', ''d'', ''e'']))"
    using three
    by (simp add: pagedSource_def threePages_def spec_defs Name_def CacheKeyFromParts_def
          cacheDuration_def prepared_def ensureCache_def Validate_snd pageRound_def)
  have b: "map_option (\<lambda>(r, s'). count_list (calls s') CallNextPage)
         (List specPackage background exampleScope False (pagedSource threePages))
     = Some 3"
    using three
    by (simp add: pagedSource_def threePages_def spec_defs Name_def CacheKeyFromParts_def
          cacheDuration_def prepared_def ensureCache_def Validate_snd pageRound_def)
  have c: "map_option (\<lambda>(r, s'). (r, filter isCacheWrite (calls s')))
         (List specPackage background exampleScope False (pagedSource secondPageFails))
     = Some (Error (QueryErr \<lparr>ErrorType = OTHER, ErrorString = ''page 2 failed'', Scope = []\<rparr>),
             [CacheStoreError
                (QueryErr \<lparr>ErrorType = OTHER, ErrorString = ''page 2 failed'', Scope = []\<rparr>)
                DefaultCacheDuration
                (CacheKey ''ec2-subnet-source'' LIST exampleScope ''ec2-subnet'' [])])"
    using fails
    by (simp add: pagedSource_def secondPageFails_def spec_defs Name_def CacheKeyFromParts_def
          cacheDuration_def prepared_def ensureCache_def Validate_snd pageRound_def)
  show ?thesis
    by (intro conjI a b c)
qed

subsection \<open>List twice\<close>

text \<open>
  C7, as the claim states it, fails when the first \<^verbatim>\<open>List\<close> finds nothing: the store loop
  of lines 294-296 then stores nothing, no entry is made, and the second \<^verbatim>\<open>List\<close> misses
  and calls the describe function again.  Here the account has no resources.
\<close>

theorem empty_List_is_not_cached:
  "List specPackage background exampleScope False emptyAccountSource
     = Some (Return [], afterEmptyList)
   \<and> List specPackage background exampleScope False afterEmptyList
     = Some (Return [],
             afterEmptyList\<lparr>calls := calls afterEmptyList @
               [CacheLookup ''ec2-subnet-source'' LIST exampleScope ''ec2-subnet'' [] False,
                CallInputMapperList exampleScope,
                CallDescribeFunc [],
                CallOutputMapper]\<rparr>)"
  by (simp add: engine_defs spec_defs emptyAccountSource_def afterEmptyList_def)

text \<open>Items stored one by one under a key without entry make the entry of these items.\<close>

lemma fold_cacheAddItem_entry:
  "fold (\<lambda>item c. cacheAddItem c item dur ck) items (Some (es(ck \<mapsto> CachedItems acc dur)))
     = Some (es(ck \<mapsto> CachedItems (acc @ items) dur))"
  by (induction items arbitrary: acc) (simp_all add: cacheAddItem_def)

lemma fold_cacheAddItem_fresh:
  assumes "es ck = None" and "items \<noteq> []"
  shows "fold (\<lambda>item c. cacheAddItem c item dur ck) items (Some es)
           = Some (es(ck \<mapsto> CachedItems items dur))"
proof (cases items)
  case Nil
  then show ?thesis using assms(2) by simp
next
  case (Cons item rest)
  have "cacheAddItem (Some es) item dur ck = Some (es(ck \<mapsto> CachedItems [item] dur))"
    using assms(1) by (simp add: cacheAddItem_def)
  then show ?thesis
    using Cons fold_cacheAddItem_entry [where es = es and ck = ck and acc = "[item]"
        and dur = dur and items = rest]
    by simp
qed

text \<open>A \<^verbatim>\<open>List\<close> on a prepared source whose cache has the items.\<close>

lemma List_again_hit:
  fixes s :: "('i, 'o, 'cl, 'it, 'p, 'it Cache) DescribeOnlySource"
  assumes "scope = FormatScope d (AccountID s) (Region s)"
    and "InputMapperList s \<noteq> None"
    and "fst (Validate (withSpecCache d) s) = None"
    and "s1 = (prepared (withSpecCache d) s)\<lparr>cache := Some es1, calls := cs1\<rparr>"
    and "es1 (CacheKey (Name s) LIST scope (ItemType s) []) = Some (CachedItems items dur)"
  shows "List (withSpecCache d) ctx scope False s1 =
           Some (Return items,
                 s1\<lparr>calls := calls s1 @ [CacheLookup (Name s) LIST scope (ItemType s) [] False]\<rparr>)"
proof -
  let ?d = "withSpecCache d"
  have sc: "scope = FormatScope ?d (AccountID s1) (Region s1)"
    using assms(1) by (simp add: assms(4))
  have ml: "InputMapperList s1 \<noteq> None"
    using assms(2) by (simp add: assms(4))
  have v: "fst (Validate ?d s1) = None"
    using assms(3) by (simp add: Validate_None_iff assms(4))
  have p: "prepared ?d s1 = s1"
    by (rule prepared_again [where s = s]) (simp_all add: assms(4))
  have n: "Name s1 = Name s" "ItemType s1 = ItemType s" "cache s1 = Some es1"
    by (simp_all add: assms(4) Name_def)
  have lk: "Lookup ?d (cache (prepared ?d s1)) ctx (Name s1) LIST scope (ItemType s1) [] False
              = ((True, CacheKey (Name s) LIST scope (ItemType s) [], items, None), cache s1)"
    unfolding p n using assms(5)
    by (simp add: cacheLookup_def CacheKeyFromParts_def Let_def)
  show ?thesis
    using List_after_lookup [OF sc ml v lk]
    by (simp add: p n logCall_def)
qed

text \<open>
  C7, amended.  With the cache of the spec: when a \<^verbatim>\<open>List\<close> with \<^verbatim>\<open>ignoreCache = false\<close> has
  returned a list of items that is not empty, the same \<^verbatim>\<open>List\<close> on the source as the first
  call left it (so without expiry and without a call in between) returns the same items,
  and the only call it makes is the cache lookup: neither the describe function nor the
  paginator is called again.
\<close>

theorem repeated_List_is_served_from_cache:
  fixes s :: "('i, 'o, 'cl, 'it, 'p, 'it Cache) DescribeOnlySource"
  assumes "scope = FormatScope d (AccountID s) (Region s)"
    and "List (withSpecCache d) ctx scope False s = Some (Return items, s1)"
    and "items \<noteq> []"
  shows "List (withSpecCache d) ctx2 scope False s1 =
           Some (Return items,
                 s1\<lparr>calls := calls s1 @ [CacheLookup (Name s) LIST scope (ItemType s) [] False]\<rparr>)"
proof -
  let ?d = "withSpecCache d"
  let ?K = "CacheKey (Name s) LIST scope (ItemType s) []"
  let ?lookup = "CacheLookup (Name s) LIST scope (ItemType s) [] False"
  have sc: "scope = FormatScope ?d (AccountID s) (Region s)"
    using assms(1) by simp
  have ml: "InputMapperList s \<noteq> None"
  proof
    assume "InputMapperList s = None"
    then have "List ?d ctx scope False s =
                 Some (Error (QueryErr \<lparr>ErrorType = NOTFOUND,
                   ErrorString = ''list is not supported for '' @ ItemType s @ '' resources'',
                   Scope = []\<rparr>), s)"
      using sc by (simp add: List_def Scopes_def)
    then show False using assms(2) by simp
  qed
  obtain iml where iml: "InputMapperList s = Some iml"
    using ml by (cases "InputMapperList s") simp_all
  have v: "fst (Validate ?d s) = None"
  proof (cases "Validate ?d s")
    case (Pair e s')
    show ?thesis
    proof (cases e)
      case None
      then show ?thesis using Pair by simp
    next
      case (Some err)
      then have "List ?d ctx scope False s = Some (Error (WrapAWSError ?d err), s')"
        using sc iml Pair by (simp add: List_def Scopes_def)
      then show ?thesis using assms(2) by simp
    qed
  qed
  obtain es where en: "cache (prepared ?d s) = Some es"
    by (cases "cache s") simp_all
  show ?thesis
  proof (cases "es ?K")
    case None
    have lk: "Lookup ?d (cache (prepared ?d s)) ctx (Name s) LIST scope (ItemType s) [] False
                = ((False, ?K, [], None), Some es)"
      unfolding en using None by (simp add: cacheLookup_def CacheKeyFromParts_def Let_def)
    define s3 where "s3 = (prepared ?d s)\<lparr>cache := Some es,
                calls := calls s @ [?lookup, CallInputMapperList scope]\<rparr>"
    show ?thesis
    proof (cases "iml scope")
      case (Inl err)
      have "List ?d ctx scope False s
              = listUncached ?d ctx scope ?K (logCall ?lookup ((prepared ?d s)\<lparr>cache := Some es\<rparr>))"
        using List_after_lookup [OF sc ml v lk] by simp
      then have "\<exists>e s'. List ?d ctx scope False s = Some (Error e, s')"
        using iml Inl by (simp add: listUncached_def logCall_def)
      then show ?thesis using assms(2) by auto
    next
      case (Inr input)
      note list = List_miss [OF sc iml Inr v lk s3_def]
      show ?thesis
      proof (cases "describe ctx input scope s3")
        case None
        then show ?thesis using list assms(2) by simp
      next
        case (Some y)
        obtain r s4 where y: "y = (r, s4)" by (cases y)
        from describe_frame [OF Some [unfolded y]] obtain cs
          where s4: "s4 = s3\<lparr>calls := calls s3 @ cs\<rparr>"
          by (elim exE conjE)
        have r: "r = Return items" and s1: "s1 = storeItems ?d items ?K s4"
          using list assms(2) Some y by (cases r; simp)+
        have c4: "cache s4 = Some es"
          by (simp add: s4 s3_def)
        have "cache s1 = Some (es(?K \<mapsto> CachedItems items (cacheDuration s4)))"
          unfolding s1 storeItems_eq
          using fold_cacheAddItem_fresh [where es = es and ck = ?K and items = items
              and dur = "cacheDuration s4", OF None assms(3)]
          by (simp add: c4)
        then have shape: "s1 = (prepared ?d s)\<lparr>
                     cache := Some (es(?K \<mapsto> CachedItems items (cacheDuration s4))),
                     calls := calls s1\<rparr>"
          unfolding s1 storeItems_eq s4 s3_def by simp
        show ?thesis
          by (rule List_again_hit [OF assms(1) ml v shape]) simp
      qed
    qed
  next
    case (Some entry)
    show ?thesis
    proof (cases entry)
      case (CachedError e dur)
      have lk: "Lookup ?d (cache (prepared ?d s)) ctx (Name s) LIST scope (ItemType s) [] False
                  = ((True, ?K, [], Some (asQueryError e)), Some es)"
        unfolding en using Some CachedError
        by (simp add: cacheLookup_def CacheKeyFromParts_def Let_def)
      have "\<exists>e' s'. List ?d ctx scope False s = Some (Error e', s')"
        using List_after_lookup [OF sc ml v lk] by simp
      then show ?thesis using assms(2) by auto
    next
      case (CachedItems xs dur)
      have lk: "Lookup ?d (cache (prepared ?d s)) ctx (Name s) LIST scope (ItemType s) [] False
                  = ((True, ?K, xs, None), Some es)"
        unfolding en using Some CachedItems
        by (simp add: cacheLookup_def CacheKeyFromParts_def Let_def)
      have first: "List ?d ctx scope False s
                     = Some (Return xs, logCall ?lookup ((prepared ?d s)\<lparr>cache := Some es\<rparr>))"
        using List_after_lookup [OF sc ml v lk] by simp
      have xs: "xs = items"
        and s1: "s1 = logCall ?lookup ((prepared ?d s)\<lparr>cache := Some es\<rparr>)"
        using first assms(2) by simp_all
      have shape: "s1 = (prepared ?d s)\<lparr>cache := Some es, calls := calls s1\<rparr>"
        unfolding s1 by (simp add: logCall_def)
      have entry: "es ?K = Some (CachedItems items dur)"
        using Some CachedItems xs by simp
      show ?thesis
        by (rule List_again_hit [OF assms(1) ml v shape entry])
    qed
  qed
qed

theorem repeated_List_witness:
  "exampleScope = FormatScope specPackage (AccountID exampleSource) (Region exampleSource)
   \<and> List specPackage background exampleScope False exampleSource
       = Some (Return (map (subnetItem exampleScope) [''subnet-1'', ''subnet-2'']), afterList)
   \<and> map (subnetItem exampleScope) [''subnet-1'', ''subnet-2''] \<noteq> []
   \<and> List specPackage cancelled exampleScope False afterList
       = Some (Return (map (subnetItem exampleScope) [''subnet-1'', ''subnet-2'']),
               afterList\<lparr>calls := calls afterList @
                 [CacheLookup ''ec2-subnet-source'' LIST exampleScope ''ec2-subnet'' [] False]\<rparr>)"
proof -
  have h1: "exampleScope
              = FormatScope specPackage (AccountID exampleSource) (Region exampleSource)"
    by (simp add: spec_defs)
  have h2: "List specPackage background exampleScope False exampleSource
       = Some (Return (map (subnetItem exampleScope) [''subnet-1'', ''subnet-2'']), afterList)"
    by (simp add: engine_defs spec_defs afterList_def)
  have h3: "map (subnetItem exampleScope) [''subnet-1'', ''subnet-2''] \<noteq> []"
    by simp
  have again: "List specPackage cancelled exampleScope False afterList
       = Some (Return (map (subnetItem exampleScope) [''subnet-1'', ''subnet-2'']),
               afterList\<lparr>calls := calls afterList @
                 [CacheLookup ''ec2-subnet-source'' LIST exampleScope ''ec2-subnet'' [] False]\<rparr>)"
    using repeated_List_is_served_from_cache
      [where d = specPackage and s = exampleSource and scope = exampleScope
         and ctx = background and ?ctx2.0 = cancelled
         and items = "map (subnetItem exampleScope) [''subnet-1'', ''subnet-2'']"
         and ?s1.0 = afterList, unfolded withSpecCache_specPackage, OF h1 h2 h3]
    by (simp add: Name_def exampleSource_def subnetSource_def)
  show ?thesis
    by (intro conjI h1 h2 h3 again)
qed

end
